theory Spec2Isabelle
  imports Main "HOL-Library.AList"
begin

section \<open>The messenger server: data model\<close>

text \<open>
  The development embeds the room server of \<^verbatim>\<open>MessengerServer.js\<close> (the variant with the
  Laravel bridge): the three registries \<^verbatim>\<open>users\<close>, \<^verbatim>\<open>rooms\<close> and \<^verbatim>\<open>messageHistory\<close>, the set
  \<^verbatim>\<open>laravelSockets\<close>, the per-socket closure variables of the connection handler, and every
  handler that reads or writes them.

  A JavaScript \<^verbatim>\<open>Map\<close> is an association list in insertion order: \<^verbatim>\<open>set\<close> on a present key
  replaces the value in place and on an absent key appends (\<open>AList.update\<close>), \<^verbatim>\<open>delete\<close>
  removes the entry (\<open>AList.delete\<close>), \<^verbatim>\<open>get\<close> is \<open>map_of\<close>. A \<^verbatim>\<open>Set\<close> is a list in insertion
  order without duplicates. Strings are \<open>string\<close>; the text handled is ASCII, where
  \<^verbatim>\<open>length\<close>, \<^verbatim>\<open>trim\<close>, \<^verbatim>\<open>toLowerCase\<close> and the character classes of the two regular expressions
  are the functions below. \<^verbatim>\<open>Date.now()\<close> is the argument \<open>now\<close> of every handler, and
  \<^verbatim>\<open>JSON.parse\<close> is the argument \<open>parse\<close> of the bridge's line handler (\<open>None\<close> where it
  throws).

  The names the clients send (\<^verbatim>\<open>username\<close>, \<^verbatim>\<open>room\<close>, \<^verbatim>\<open>newRoom\<close>, the bridge's \<^verbatim>\<open>room\<close> and
  \<^verbatim>\<open>event\<close>) are strings, as in the data model, or absent; message contents and the
  bridge's \<^verbatim>\<open>data\<close> are arbitrary JSON values, since \<^verbatim>\<open>sanitizeInput\<close> is applied to whatever
  arrives. Whitespace is ASCII whitespace and case is ASCII case; a username or room name
  that passes its regular expression has no other characters.
\<close>

type_synonym conn = string

datatype jsval =
    JUndefined
  | JNull
  | JBool bool
  | JNum int
  | JStr string
  | JArr "jsval list"
  | JObj "(string \<times> jsval) list"

record user =
  username :: string
  room :: string
  socketId :: conn
  userId :: jsval
  joinedAt :: nat

datatype message_id = system_id nat | msg_id nat conn | pm_id nat conn

text \<open>What a room's history holds: the system notices and chat messages the server builds,
  and the \<^verbatim>\<open>data\<close> of a bridge \<^verbatim>\<open>receive_message\<close>.\<close>

datatype message =
    SystemMessage message_id string string nat
  | ChatMessage message_id string string string nat conn jsval
  | BridgeData jsval

record private_message =
  pm_ident :: message_id
  pm_from :: string
  pm_to :: string
  pm_content :: string
  pm_timestamp :: nat

record room_info =
  ri_id :: jsval
  ri_slug :: string
  ri_name :: string
  ri_type :: string
  ri_collaboration_id :: jsval

record new_user_info =
  nu_id :: jsval
  nu_name :: jsval

datatype payload =
    P_error string
  | P_laravel_connected nat
  | P_pong nat
  | P_history "message list"
  | P_joined string string nat
  | P_message message
  | P_users "user list"
  | P_private private_message
  | P_typing string bool
  | P_room_changed string nat
  | P_rooms_list "(string \<times> nat) list"
  | P_room_users string "user list"
  | P_json jsval
  | P_collaboration room_info new_user_info nat
  | P_presence jsval jsval nat "string option"

text \<open>The four ways the server addresses an event: \<^verbatim>\<open>socket.emit\<close>, \<^verbatim>\<open>io.to(room).emit\<close>,
  \<^verbatim>\<open>socket.to(room).emit\<close> (the room without the sender) and \<^verbatim>\<open>io.emit\<close>.\<close>

datatype target =
    to_socket conn
  | to_room string
  | to_room_except string conn
  | to_all

datatype delivery = Emit target string payload

datatype bridge_message =
    M_emit string jsval
  | M_emit_to_room string string jsval
  | M_room_created "room_info option" "new_user_info option"
  | M_presence_update jsval jsval "string option"
  | M_ping
  | M_heartbeat
  | M_disconnect
  | M_unknown

record join_data =
  jd_username :: "string option"
  jd_room :: "string option"
  jd_userId :: "jsval option"

record state =
  users :: "(conn \<times> user) list"
  rooms :: "(string \<times> conn list) list"
  messageHistory :: "(string \<times> message list) list"
  laravelSockets :: "conn list"
  isLaravelClient :: "conn \<Rightarrow> bool"
  dataBuffer :: "conn \<Rightarrow> string"
  timers :: "string list"

text \<open>\<open>isLaravelClient\<close> stands for the closure variable and the socket property of the same
  name, which are only ever written together; \<open>timers\<close> holds the room captured by each
  pending \<^verbatim>\<open>setTimeout\<close> callback.\<close>

definition initial :: state where
  "initial = \<lparr>users = [], rooms = [], messageHistory = [], laravelSockets = [],
     isLaravelClient = (\<lambda>_. False), dataBuffer = (\<lambda>_. []), timers = []\<rparr>"

section \<open>Utility functions\<close>

definition MAX_MESSAGE_HISTORY :: nat where "MAX_MESSAGE_HISTORY = 50"
definition MAX_USERNAME_LENGTH :: nat where "MAX_USERNAME_LENGTH = 20"
definition MAX_MESSAGE_LENGTH :: nat where "MAX_MESSAGE_LENGTH = 500"
definition MAX_ROOM_NAME_LENGTH :: nat where "MAX_ROOM_NAME_LENGTH = 30"

definition is_space :: "char \<Rightarrow> bool" where
  "is_space c = (let n = (of_char c :: nat) in (9 \<le> n \<and> n \<le> 13) \<or> n = 32)"

definition trim :: "string \<Rightarrow> string" where
  "trim s = rev (dropWhile is_space (rev (dropWhile is_space s)))"

definition toLowerChar :: "char \<Rightarrow> char" where
  "toLowerChar c =
     (let n = (of_char c :: nat) in if 65 \<le> n \<and> n \<le> 90 then char_of (n + 32) else c)"

definition toLowerCase :: "string \<Rightarrow> string" where
  "toLowerCase s = map toLowerChar s"

text \<open>The character class \<^verbatim>\<open>[a-zA-Z0-9_-]\<close>.\<close>

definition name_char :: "char \<Rightarrow> bool" where
  "name_char c =
     (let n = (of_char c :: nat)
      in (97 \<le> n \<and> n \<le> 122) \<or> (65 \<le> n \<and> n \<le> 90) \<or> (48 \<le> n \<and> n \<le> 57)
         \<or> c = CHR ''_'' \<or> c = CHR ''-'')"

datatype 'a outcome = Returns 'a | Throws

text \<open>\<^verbatim>\<open>input.trim()\<close> is a \<^verbatim>\<open>TypeError\<close> on every value that is not a string.\<close>

fun sanitizeInput :: "jsval \<Rightarrow> string outcome" where
  "sanitizeInput (JStr s) = Returns (take MAX_MESSAGE_LENGTH (trim s))"
| "sanitizeInput _ = Throws"

definition isValidUsername :: "string option \<Rightarrow> bool" where
  "isValidUsername u =
     (case u of None \<Rightarrow> False
      | Some s \<Rightarrow> s \<noteq> [] \<and> length s \<le> MAX_USERNAME_LENGTH \<and> list_all name_char s)"

definition isValidRoomName :: "string \<Rightarrow> bool" where
  "isValidRoomName r = (r \<noteq> [] \<and> length r \<le> MAX_ROOM_NAME_LENGTH \<and> list_all name_char r)"

text \<open>Reading a property: a \<^verbatim>\<open>TypeError\<close> on \<^verbatim>\<open>undefined\<close> and \<^verbatim>\<open>null\<close>, the field of an object,
  and \<^verbatim>\<open>undefined\<close> for the property names used here on every other value.\<close>

fun get_prop :: "jsval \<Rightarrow> string \<Rightarrow> jsval outcome" where
  "get_prop JUndefined k = Throws"
| "get_prop JNull k = Throws"
| "get_prop (JObj fs) k = Returns (case map_of fs k of None \<Rightarrow> JUndefined | Some v \<Rightarrow> v)"
| "get_prop _ k = Returns JUndefined"

definition Set_add :: "'a \<Rightarrow> 'a list \<Rightarrow> 'a list" where
  "Set_add x xs = (if x \<in> set xs then xs else xs @ [x])"

definition Set_delete :: "'a \<Rightarrow> 'a list \<Rightarrow> 'a list" where
  "Set_delete x xs = removeAll x xs"

definition has :: "('k \<times> 'v) list \<Rightarrow> 'k \<Rightarrow> bool" where
  "has m k = (map_of m k \<noteq> None)"

definition getMessageHistory :: "state \<Rightarrow> string \<Rightarrow> message list" where
  "getMessageHistory s rm = (case map_of (messageHistory s) rm of None \<Rightarrow> [] | Some h \<Rightarrow> h)"

definition addToMessageHistory :: "string \<Rightarrow> message \<Rightarrow> state \<Rightarrow> state" where
  "addToMessageHistory rm m s =
     (let mh = (if \<not> has (messageHistory s) rm then AList.update rm [] (messageHistory s)
                else messageHistory s);
          history = (case map_of mh rm of None \<Rightarrow> [] | Some h \<Rightarrow> h) @ [m];
          history = (if length history > MAX_MESSAGE_HISTORY then tl history else history)
      in s\<lparr>messageHistory := AList.update rm history mh\<rparr>)"

text \<open>\<^verbatim>\<open>if (!rooms.has(room)) rooms.set(room, new Set())\<close>.\<close>

definition ensure_room :: "string \<Rightarrow> state \<Rightarrow> state" where
  "ensure_room rm s = (if \<not> has (rooms s) rm then s\<lparr>rooms := AList.update rm [] (rooms s)\<rparr> else s)"

text \<open>\<^verbatim>\<open>rooms.get(room).add(id)\<close>; the entry is there wherever the source calls it.\<close>

definition room_add :: "string \<Rightarrow> conn \<Rightarrow> state \<Rightarrow> state" where
  "room_add rm c s =
     (case map_of (rooms s) rm of
        None \<Rightarrow> s
      | Some members \<Rightarrow> s\<lparr>rooms := AList.update rm (Set_add c members) (rooms s)\<rparr>)"

definition room_size :: "state \<Rightarrow> string \<Rightarrow> nat" where
  "room_size s rm = (case map_of (rooms s) rm of None \<Rightarrow> 0 | Some members \<Rightarrow> length members)"

text \<open>\<^verbatim>\<open>Array.from(rooms.get(room) || []).map(id => users.get(id)).filter(u => u)\<close>.\<close>

definition roomUsers :: "state \<Rightarrow> string \<Rightarrow> user list" where
  "roomUsers s rm =
     List.map_filter (\<lambda>i. map_of (users s) i)
       (case map_of (rooms s) rm of None \<Rightarrow> [] | Some members \<Rightarrow> members)"

text \<open>The member removal shared by \<^verbatim>\<open>change_room\<close> and \<^verbatim>\<open>disconnect\<close>: the member is deleted
  from the room's set; an emptied room loses its entry at once and a purge of its history is
  scheduled.\<close>

definition leave_room :: "string \<Rightarrow> conn \<Rightarrow> state \<Rightarrow> state" where
  "leave_room rm c s =
     (case map_of (rooms s) rm of
        None \<Rightarrow> s
      | Some members \<Rightarrow>
          (let members' = Set_delete c members
           in if length members' = 0
              then s\<lparr>rooms := AList.delete rm (rooms s), timers := timers s @ [rm]\<rparr>
              else s\<lparr>rooms := AList.update rm members' (rooms s)\<rparr>))"

text \<open>The callback of the timer: the history goes only if the room is still absent.\<close>

definition purge_callback :: "string \<Rightarrow> state \<Rightarrow> state" where
  "purge_callback rm s =
     (if \<not> has (rooms s) rm then s\<lparr>messageHistory := AList.delete rm (messageHistory s)\<rparr> else s)"

definition findByUsername :: "state \<Rightarrow> string \<Rightarrow> user option" where
  "findByUsername s name =
     List.find (\<lambda>u. toLowerCase (username u) = toLowerCase name) (map snd (users s))"

section \<open>Regular-client event handlers\<close>

text \<open>Every handler returns the new state and the events it emits, in the order of emission.
  \<^verbatim>\<open>socket.join\<close> and \<^verbatim>\<open>socket.leave\<close> act on the transport's own room table, which decides who
  receives an event addressed to a room; the handlers are modelled up to the addressed
  event.\<close>

definition error_to :: "conn \<Rightarrow> string \<Rightarrow> delivery" where
  "error_to c msg = Emit (to_socket c) ''error'' (P_error msg)"

definition invalid_username_msg :: string where
  "invalid_username_msg =
     ''Invalid username. Use only letters, numbers, hyphens, and underscores (max 20 chars)''"

definition invalid_room_msg :: string where
  "invalid_room_msg =
     ''Invalid room name. Use only letters, numbers, hyphens, and underscores (max 30 chars)''"

definition username_taken_msg :: string where
  "username_taken_msg = ''Username already taken. Please choose another one.''"

text \<open>The defaults of the destructuring \<^verbatim>\<open>{ username, room = 'general', userId = null }\<close>.\<close>


definition requested_room :: "join_data \<Rightarrow> string" where
  "requested_room d = (case jd_room d of None \<Rightarrow> ''general'' | Some r \<Rightarrow> r)"

text \<open>A payload that is \<^verbatim>\<open>undefined\<close> or \<^verbatim>\<open>null\<close> makes the destructuring throw, which the
  handler's \<^verbatim>\<open>catch\<close> answers with ``Failed to join room''. A username that passed
  \<open>isValidUsername\<close> is present, so the branch for an absent one after the two checks is
  never taken.\<close>

definition join_handler :: "nat \<Rightarrow> conn \<Rightarrow> join_data option \<Rightarrow> state \<Rightarrow> state \<times> delivery list" where
  "join_handler now c userData s =
     (if isLaravelClient s c then (s, [])
      else case userData of
        None \<Rightarrow> (s, [error_to c ''Failed to join room''])
      | Some d \<Rightarrow>
          (let rm = requested_room d;
               uid = (case jd_userId d of None \<Rightarrow> JNull | Some v \<Rightarrow> v)
           in if \<not> isValidUsername (jd_username d) then (s, [error_to c invalid_username_msg])
              else if \<not> isValidRoomName rm then (s, [error_to c invalid_room_msg])
              else case jd_username d of
                None \<Rightarrow> (s, [error_to c ''Failed to join room''])
              | Some name \<Rightarrow>
                  (if findByUsername s name \<noteq> None then (s, [error_to c username_taken_msg])
                   else
                     (let s1 = s\<lparr>users := AList.update c
                                   \<lparr>username = name, room = rm, socketId = c, userId = uid,
                                    joinedAt = now\<rparr> (users s)\<rparr>;
                          s2 = room_add rm c (ensure_room rm s1);
                          history = getMessageHistory s2 rm;
                          joinMessage = SystemMessage (system_id now)
                                          (name @ '' joined the room'') rm now;
                          s3 = addToMessageHistory rm joinMessage s2
                      in (s3,
                          [Emit (to_socket c) ''message_history'' (P_history history),
                           Emit (to_socket c) ''joined''
                             (P_joined rm (''Welcome to '' @ rm @ ''!'') (room_size s2 rm)),
                           Emit (to_room_except rm c) ''user_joined'' (P_message joinMessage),
                           Emit (to_room rm) ''users_update'' (P_users (roomUsers s3 rm))])))))"

definition send_message_handler :: "nat \<Rightarrow> conn \<Rightarrow> jsval \<Rightarrow> state \<Rightarrow> state \<times> delivery list" where
  "send_message_handler now c messageData s =
     (if isLaravelClient s c then (s, [])
      else case map_of (users s) c of
        None \<Rightarrow> (s, [error_to c ''User not authenticated''])
      | Some u \<Rightarrow>
          (case get_prop messageData ''content'' of
             Throws \<Rightarrow> (s, [error_to c ''Failed to send message''])
           | Returns v \<Rightarrow>
               (case sanitizeInput v of
                  Throws \<Rightarrow> (s, [error_to c ''Failed to send message''])
                | Returns content \<Rightarrow>
                    (if content = [] then (s, [error_to c ''Message cannot be empty''])
                     else
                       (let message = ChatMessage (msg_id now c) (username u) content (room u)
                                        now c (userId u)
                        in (addToMessageHistory (room u) message s,
                            [Emit (to_room (room u)) ''receive_message'' (P_message message)]))))))"

text \<open>The lookup of the target calls \<^verbatim>\<open>targetUsername.toLowerCase()\<close> for the first user it
  visits, a \<^verbatim>\<open>TypeError\<close> when the target is not a string. The target is reached through the
  transport room named by its socket id.\<close>

definition send_private_message_handler ::
  "nat \<Rightarrow> conn \<Rightarrow> jsval \<Rightarrow> state \<Rightarrow> state \<times> delivery list" where
  "send_private_message_handler now c data s =
     (if isLaravelClient s c then (s, [])
      else case map_of (users s) c of
        None \<Rightarrow> (s, [error_to c ''User not authenticated''])
      | Some sender \<Rightarrow>
          (case (get_prop data ''targetUsername'', get_prop data ''content'') of
             (Returns targetUsername, Returns content) \<Rightarrow>
               (case sanitizeInput content of
                  Throws \<Rightarrow> (s, [error_to c ''Failed to send private message''])
                | Returns sanitizedContent \<Rightarrow>
                    (if sanitizedContent = []
                     then (s, [error_to c ''Private message cannot be empty''])
                     else case targetUsername of
                       JStr t \<Rightarrow>
                         (case findByUsername s t of
                            Some targetUser \<Rightarrow>
                              (let privateMessage =
                                     \<lparr>pm_ident = pm_id now c, pm_from = username sender,
                                      pm_to = t, pm_content = sanitizedContent,
                                      pm_timestamp = now\<rparr>
                               in (s, [Emit (to_room (socketId targetUser))
                                         ''receive_private_message'' (P_private privateMessage),
                                       Emit (to_socket c) ''private_message_sent''
                                         (P_private privateMessage)]))
                          | None \<Rightarrow> (s, [error_to c ''User not found or offline'']))
                     | _ \<Rightarrow>
                         (if users s = [] then (s, [error_to c ''User not found or offline''])
                          else (s, [error_to c ''Failed to send private message'']))))
           | _ \<Rightarrow> (s, [error_to c ''Failed to send private message''])))"

definition typing_handler :: "bool \<Rightarrow> conn \<Rightarrow> state \<Rightarrow> state \<times> delivery list" where
  "typing_handler isTyping c s =
     (if isLaravelClient s c then (s, [])
      else case map_of (users s) c of
        None \<Rightarrow> (s, [])
      | Some u \<Rightarrow>
          (s, [Emit (to_room_except (room u) c) ''user_typing'' (P_typing (username u) isTyping)]))"

definition change_room_handler :: "nat \<Rightarrow> conn \<Rightarrow> string \<Rightarrow> state \<Rightarrow> state \<times> delivery list" where
  "change_room_handler now c newRoom s =
     (if isLaravelClient s c then (s, [])
      else case map_of (users s) c of
        None \<Rightarrow> (s, [error_to c ''User not authenticated''])
      | Some u \<Rightarrow>
          (if \<not> isValidRoomName newRoom then (s, [error_to c invalid_room_msg])
           else
             (let oldRoom = room u;
                  s1 = leave_room oldRoom c s;
                  s2 = s1\<lparr>users := AList.update c (u\<lparr>room := newRoom\<rparr>) (users s1)\<rparr>;
                  s3 = room_add newRoom c (ensure_room newRoom s2);
                  history = getMessageHistory s3 newRoom;
                  leftMessage = SystemMessage (system_id now)
                                  (username u @ '' left the room'') oldRoom now;
                  s4 = addToMessageHistory oldRoom leftMessage s3;
                  oldRoomUsers = roomUsers s4 oldRoom;
                  joinedMessage = SystemMessage (system_id now)
                                    (username u @ '' joined the room'') newRoom now;
                  s5 = addToMessageHistory newRoom joinedMessage s4;
                  newRoomUsers = roomUsers s5 newRoom
              in (s5,
                  [Emit (to_socket c) ''message_history'' (P_history history),
                   Emit (to_room_except oldRoom c) ''user_left'' (P_message leftMessage),
                   Emit (to_room oldRoom) ''users_update'' (P_users oldRoomUsers),
                   Emit (to_room_except newRoom c) ''user_joined'' (P_message joinedMessage),
                   Emit (to_room newRoom) ''users_update'' (P_users newRoomUsers),
                   Emit (to_socket c) ''room_changed''
                     (P_room_changed newRoom (room_size s5 newRoom))]))))"

definition get_rooms_handler :: "conn \<Rightarrow> state \<Rightarrow> state \<times> delivery list" where
  "get_rooms_handler c s =
     (if isLaravelClient s c then (s, [])
      else (s, [Emit (to_socket c) ''rooms_list''
                  (P_rooms_list (map (\<lambda>(rm, members). (rm, length members)) (rooms s)))]))"

definition get_room_users_handler :: "conn \<Rightarrow> string \<Rightarrow> state \<Rightarrow> state \<times> delivery list" where
  "get_room_users_handler c rm s =
     (if isLaravelClient s c then (s, [])
      else (s, [Emit (to_socket c) ''room_users'' (P_room_users rm (roomUsers s rm))]))"

definition disconnect_handler :: "nat \<Rightarrow> conn \<Rightarrow> state \<Rightarrow> state \<times> delivery list" where
  "disconnect_handler now c s =
     (if isLaravelClient s c
      then (s\<lparr>laravelSockets := Set_delete c (laravelSockets s)\<rparr>, [])
      else case map_of (users s) c of
        None \<Rightarrow> (s, [])
      | Some u \<Rightarrow>
          (let s1 = leave_room (room u) c s;
               s2 = s1\<lparr>users := AList.delete c (users s1)\<rparr>;
               leftMessage = SystemMessage (system_id now)
                               (username u @ '' left the room'') (room u) now;
               s3 = addToMessageHistory (room u) leftMessage s2
           in (s3,
               [Emit (to_room_except (room u) c) ''user_left'' (P_message leftMessage),
                Emit (to_room (room u)) ''users_update'' (P_users (roomUsers s3 (room u)))])))"

section \<open>The bridge\<close>

definition handleLaravelEmit :: "string \<Rightarrow> jsval \<Rightarrow> state \<Rightarrow> state \<times> delivery list" where
  "handleLaravelEmit ev data s = (s, [Emit to_all ev (P_json data)])"

definition handleLaravelRoomEmit ::
  "string \<Rightarrow> string \<Rightarrow> jsval \<Rightarrow> state \<Rightarrow> state \<times> delivery list" where
  "handleLaravelRoomEmit rm ev data s =
     (let s1 = ensure_room rm s;
          s2 = (if ev = ''receive_message'' then addToMessageHistory rm (BridgeData data) s1
                else s1)
      in (s2, [Emit (to_room rm) ev (P_json data)]))"

text \<open>\<^verbatim>\<open>room.name\<close> throws on a message without \<^verbatim>\<open>room\<close>, before anything is done;
  \<^verbatim>\<open>new_user.id\<close> throws on a collaboration room without \<^verbatim>\<open>new_user\<close>, after the room
  tracking was created.\<close>

definition handleLaravelRoomCreation ::
  "nat \<Rightarrow> room_info option \<Rightarrow> new_user_info option \<Rightarrow> state \<Rightarrow> state \<times> delivery list" where
  "handleLaravelRoomCreation now rinfo new_user s =
     (case rinfo of
        None \<Rightarrow> (s, [])
      | Some r \<Rightarrow>
          (let s1 = ensure_room (ri_slug r) s
           in if ri_type r = ''collaboration''
              then (case new_user of
                      None \<Rightarrow> (s1, [])
                    | Some nu \<Rightarrow>
                        (s1, [Emit to_all ''collaboration_room_created''
                                (P_collaboration r nu now)]))
              else (s1, [])))"

definition handleLaravelPresenceUpdate ::
  "nat \<Rightarrow> jsval \<Rightarrow> jsval \<Rightarrow> string option \<Rightarrow> state \<Rightarrow> state \<times> delivery list" where
  "handleLaravelPresenceUpdate now user_id status rmo s =
     (case rmo of
        Some rm \<Rightarrow>
          (if rm \<noteq> []
           then (s, [Emit (to_room rm) ''user_presence_changed''
                       (P_presence user_id status now (Some rm))])
           else (s, [Emit to_all ''user_presence_changed''
                       (P_presence user_id status now None)]))
      | None \<Rightarrow>
          (s, [Emit to_all ''user_presence_changed'' (P_presence user_id status now None)]))"

definition processLaravelMessage ::
  "(string \<Rightarrow> bridge_message option) \<Rightarrow> nat \<Rightarrow> conn \<Rightarrow> string \<Rightarrow> state
     \<Rightarrow> state \<times> delivery list" where
  "processLaravelMessage parse now c messageStr s =
     (case parse messageStr of
        None \<Rightarrow> (s, [])
      | Some m \<Rightarrow>
          (case m of
             M_emit ev data \<Rightarrow> handleLaravelEmit ev data s
           | M_emit_to_room rm ev data \<Rightarrow> handleLaravelRoomEmit rm ev data s
           | M_room_created rinfo new_user \<Rightarrow> handleLaravelRoomCreation now rinfo new_user s
           | M_presence_update user_id status rmo \<Rightarrow>
               handleLaravelPresenceUpdate now user_id status rmo s
           | M_ping \<Rightarrow> (s, [Emit (to_socket c) ''pong'' (P_pong now)])
           | M_heartbeat \<Rightarrow> (s, [])
           | M_disconnect \<Rightarrow> (s, [])
           | M_unknown \<Rightarrow> (s, [])))"

text \<open>\<^verbatim>\<open>String.prototype.split('\n')\<close>: never empty, the last element is the text after the
  last newline.\<close>

fun split_newline :: "string \<Rightarrow> string list" where
  "split_newline [] = [[]]"
| "split_newline (ch # cs) =
     (if ch = CHR 0x0A then [] # split_newline cs
      else (case split_newline cs of
              [] \<Rightarrow> [[ch]]
            | l # ls \<Rightarrow> (ch # l) # ls))"

fun process_lines ::
  "(string \<Rightarrow> bridge_message option) \<Rightarrow> nat \<Rightarrow> conn \<Rightarrow> string list \<Rightarrow> state
     \<Rightarrow> state \<times> delivery list" where
  "process_lines parse now c [] s = (s, [])"
| "process_lines parse now c (msg # msgs) s =
     (let (s1, out1) = (if trim msg \<noteq> [] then processLaravelMessage parse now c msg s
                        else (s, []));
          (s2, out2) = process_lines parse now c msgs s1
      in (s2, out1 @ out2))"

definition sentinel :: string where
  "sentinel = ''LARAVEL_CLIENT''"

definition data_handler ::
  "(string \<Rightarrow> bridge_message option) \<Rightarrow> nat \<Rightarrow> conn \<Rightarrow> string \<Rightarrow> state
     \<Rightarrow> state \<times> delivery list" where
  "data_handler parse now c data s =
     (let message = trim data
      in if message = sentinel
         then (s\<lparr>laravelSockets := Set_add c (laravelSockets s),
                 isLaravelClient := (isLaravelClient s)(c := True)\<rparr>,
               [Emit (to_socket c) ''laravel_connected'' (P_laravel_connected now)])
         else if isLaravelClient s c
         then (let messages = split_newline (dataBuffer s c @ message);
                   s1 = s\<lparr>dataBuffer := (dataBuffer s)(c := last messages)\<rparr>
               in process_lines parse now c (butlast messages) s1)
         else (s, []))"

definition laravel_emit_handler ::
  "conn \<Rightarrow> (string \<times> jsval) option \<Rightarrow> state \<Rightarrow> state \<times> delivery list" where
  "laravel_emit_handler c data s =
     (if \<not> isLaravelClient s c then (s, [])
      else case data of
        None \<Rightarrow> (s, [])
      | Some (ev, pl) \<Rightarrow> (s, [Emit to_all ev (P_json pl)]))"

definition laravel_emit_to_room_handler ::
  "conn \<Rightarrow> (string \<times> string \<times> jsval) option \<Rightarrow> state \<Rightarrow> state \<times> delivery list" where
  "laravel_emit_to_room_handler c data s =
     (if \<not> isLaravelClient s c then (s, [])
      else case data of
        None \<Rightarrow> (s, [])
      | Some (rm, ev, pl) \<Rightarrow>
          (let s1 = ensure_room rm s;
               s2 = (if ev = ''receive_message'' then addToMessageHistory rm (BridgeData pl) s1
                     else s1)
           in (s2, [Emit (to_room rm) ev (P_json pl)])))"

definition laravel_room_created_handler ::
  "nat \<Rightarrow> conn \<Rightarrow> room_info option \<Rightarrow> new_user_info option \<Rightarrow> state
     \<Rightarrow> state \<times> delivery list" where
  "laravel_room_created_handler now c rinfo new_user s =
     (if \<not> isLaravelClient s c then (s, [])
      else handleLaravelRoomCreation now rinfo new_user s)"

definition laravel_presence_update_handler ::
  "nat \<Rightarrow> conn \<Rightarrow> jsval \<Rightarrow> jsval \<Rightarrow> string option \<Rightarrow> state \<Rightarrow> state \<times> delivery list" where
  "laravel_presence_update_handler now c user_id status rmo s =
     (if \<not> isLaravelClient s c then (s, [])
      else handleLaravelPresenceUpdate now user_id status rmo s)"

section \<open>The server as a transition system\<close>

datatype input =
    connection conn
  | conn_data conn string
  | join conn "join_data option"
  | send_message conn jsval
  | send_private_message conn jsval
  | typing conn
  | stop_typing conn
  | change_room conn string
  | get_rooms conn
  | get_room_users conn string
  | laravel_emit conn "(string \<times> jsval) option"
  | laravel_emit_to_room conn "(string \<times> string \<times> jsval) option"
  | laravel_room_created conn "room_info option" "new_user_info option"
  | laravel_presence_update conn jsval jsval "string option"
  | disconnect conn
  | purge_timeout string

text \<open>A new connection starts with \<^verbatim>\<open>isLaravelClient = false\<close> and an empty buffer. A purge
  callback fires only if one is pending for its room.\<close>

fun step ::
  "(string \<Rightarrow> bridge_message option) \<Rightarrow> nat \<Rightarrow> input \<Rightarrow> state \<Rightarrow> state \<times> delivery list" where
  "step parse now (connection c) s =
     (s\<lparr>isLaravelClient := (isLaravelClient s)(c := False),
        dataBuffer := (dataBuffer s)(c := [])\<rparr>, [])"
| "step parse now (conn_data c data) s = data_handler parse now c data s"
| "step parse now (join c userData) s = join_handler now c userData s"
| "step parse now (send_message c messageData) s = send_message_handler now c messageData s"
| "step parse now (send_private_message c data) s = send_private_message_handler now c data s"
| "step parse now (typing c) s = typing_handler True c s"
| "step parse now (stop_typing c) s = typing_handler False c s"
| "step parse now (change_room c newRoom) s = change_room_handler now c newRoom s"
| "step parse now (get_rooms c) s = get_rooms_handler c s"
| "step parse now (get_room_users c rm) s = get_room_users_handler c rm s"
| "step parse now (laravel_emit c data) s = laravel_emit_handler c data s"
| "step parse now (laravel_emit_to_room c data) s = laravel_emit_to_room_handler c data s"
| "step parse now (laravel_room_created c rinfo new_user) s =
     laravel_room_created_handler now c rinfo new_user s"
| "step parse now (laravel_presence_update c user_id status rmo) s =
     laravel_presence_update_handler now c user_id status rmo s"
| "step parse now (disconnect c) s = disconnect_handler now c s"
| "step parse now (purge_timeout rm) s =
     (if rm \<in> set (timers s) then (purge_callback rm (s\<lparr>timers := remove1 rm (timers s)\<rparr>), [])
      else (s, []))"

text \<open>The states the server can be in: the empty registries, and whatever an input at some
  time makes of a reachable state.\<close>

inductive reachable :: "(string \<Rightarrow> bridge_message option) \<Rightarrow> state \<Rightarrow> bool"
  for parse :: "string \<Rightarrow> bridge_message option" where
  reachable_initial: "reachable parse initial"
| reachable_step: "reachable parse s \<Longrightarrow> reachable parse (fst (step parse now i s))"

text \<open>Running a list of timed inputs from a state.\<close>

definition run ::
  "(string \<Rightarrow> bridge_message option) \<Rightarrow> (nat \<times> input) list \<Rightarrow> state \<Rightarrow> state" where
  "run parse tis s = fold (\<lambda>(now, i) s'. fst (step parse now i s')) tis s"

section \<open>Properties of the registries\<close>

text \<open>The history bound, over every stored buffer.\<close>

definition hist_ok :: "(string \<times> message list) list \<Rightarrow> bool" where
  "hist_ok mh = (\<forall>rm h. map_of mh rm = Some h \<longrightarrow> length h \<le> MAX_MESSAGE_HISTORY)"

text \<open>The usernames of \<^verbatim>\<open>users.values()\<close>, in lower case.\<close>

definition lower_names :: "state \<Rightarrow> string list" where
  "lower_names s = map (\<lambda>p. toLowerCase (username (snd p))) (users s)"

definition names_valid :: "state \<Rightarrow> bool" where
  "names_valid s = (\<forall>p \<in> set (users s). isValidUsername (Some (username (snd p))))"

text \<open>The member set of a room, empty for a room without entry
  (\<^verbatim>\<open>rooms.get(room) || []\<close>).\<close>

definition members :: "state \<Rightarrow> string \<Rightarrow> conn list" where
  "members s rm = (case map_of (rooms s) rm of None \<Rightarrow> [] | Some m \<Rightarrow> m)"


text \<open>Every member of a room has a user record that names the room.\<close>

definition membership_consistent :: "state \<Rightarrow> bool" where
  "membership_consistent s =
     (\<forall>rm m c. map_of (rooms s) rm = Some m \<longrightarrow> c \<in> set m \<longrightarrow>
        (\<exists>u. map_of (users s) c = Some u \<and> room u = rm))"




text \<open>The states reached when no connection that already has a user record issues
  \<^verbatim>\<open>join\<close> again.\<close>

fun rejoin :: "input \<Rightarrow> state \<Rightarrow> bool" where
  "rejoin (join c userData) s = has (users s) c"
| "rejoin _ s = False"

inductive reachable_join_once :: "(string \<Rightarrow> bridge_message option) \<Rightarrow> state \<Rightarrow> bool"
  for parse :: "string \<Rightarrow> bridge_message option" where
  join_once_initial: "reachable_join_once parse initial"
| join_once_step:
    "reachable_join_once parse s \<Longrightarrow> \<not> rejoin i s \<Longrightarrow>
     reachable_join_once parse (fst (step parse now i s))"

text \<open>When \<^verbatim>\<open>join\<close> and \<^verbatim>\<open>change_room\<close> get past their checks, and the user record a
  \<^verbatim>\<open>join\<close> stores.\<close>

definition join_accepted :: "state \<Rightarrow> conn \<Rightarrow> join_data option \<Rightarrow> bool" where
  "join_accepted s c userData =
     (\<not> isLaravelClient s c \<and>
      (case userData of
         None \<Rightarrow> False
       | Some d \<Rightarrow>
           isValidUsername (jd_username d) \<and> isValidRoomName (requested_room d) \<and>
           (case jd_username d of None \<Rightarrow> False | Some name \<Rightarrow> findByUsername s name = None)))"

definition joined_user :: "nat \<Rightarrow> conn \<Rightarrow> join_data \<Rightarrow> user" where
  "joined_user now c d =
     \<lparr>username = (case jd_username d of None \<Rightarrow> [] | Some name \<Rightarrow> name),
      room = requested_room d, socketId = c,
      userId = (case jd_userId d of None \<Rightarrow> JNull | Some v \<Rightarrow> v), joinedAt = now\<rparr>"

definition change_room_accepted :: "state \<Rightarrow> conn \<Rightarrow> string \<Rightarrow> bool" where
  "change_room_accepted s c newRoom =
     (\<not> isLaravelClient s c \<and> has (users s) c \<and> isValidRoomName newRoom)"

text \<open>A step that leaves the users alone and at most adds rooms without members.\<close>

definition rooms_grow :: "state \<Rightarrow> state \<Rightarrow> bool" where
  "rooms_grow s s' =
     (users s' = users s \<and>
      (\<forall>rm m. map_of (rooms s') rm = Some m \<longrightarrow> m = [] \<or> map_of (rooms s) rm = Some m))"

text \<open>The values on which \<^verbatim>\<open>input.trim()\<close> is defined.\<close>

fun is_string :: "jsval \<Rightarrow> bool" where
  "is_string (JStr s) = True"
| "is_string _ = False"

section \<open>Example runs\<close>

text \<open>Fifty-one distinct entries, for the eviction example.\<close>

definition fifty_one :: "message list" where
  "fifty_one = map (\<lambda>n. BridgeData (JNum (int n))) [0..<51]"

text \<open>A server whose bridge lines never parse, a first user, and the state after she joined
  \<^verbatim>\<open>lobby\<close> on connection \<^verbatim>\<open>c1\<close>.\<close>

definition no_parse :: "string \<Rightarrow> bridge_message option" where
  "no_parse l = None"

definition alice :: join_data where
  "alice = \<lparr>jd_username = Some ''alice'', jd_room = Some ''lobby'', jd_userId = None\<rparr>"

definition alice_user :: user where
  "alice_user = \<lparr>username = ''alice'', room = ''lobby'', socketId = ''c1'', userId = JNull,
     joinedAt = 1\<rparr>"

definition alice_joined :: state where
  "alice_joined = run no_parse [(0, connection ''c1''), (1, join ''c1'' (Some alice))] initial"

text \<open>Requests that fail validation in that state.\<close>

definition alice_again :: join_data where
  "alice_again = \<lparr>jd_username = Some ''Alice'', jd_room = None, jd_userId = None\<rparr>"

definition spaced :: join_data where
  "spaced = \<lparr>jd_username = Some ''ab cd'', jd_room = None, jd_userId = None\<rparr>"

definition bad_room :: join_data where
  "bad_room = \<lparr>jd_username = Some ''carol'', jd_room = Some ''no room'', jd_userId = None\<rparr>"

definition blank :: jsval where
  "blank = JObj [(''targetUsername'', JStr ''alice''), (''content'', JStr ''   '')]"

definition to_nobody :: jsval where
  "to_nobody = JObj [(''targetUsername'', JStr ''zed''), (''content'', JStr ''psst'')]"

text \<open>A bridge frame of two complete lines and an unfinished one; \<open>bridge_parse\<close> is
  \<^verbatim>\<open>JSON.parse\<close> on the two lines, an \<^verbatim>\<open>emit_to_room\<close> and a \<^verbatim>\<open>room_created\<close>.\<close>

definition bridge_parse :: "string \<Rightarrow> bridge_message option" where
  "bridge_parse l =
     (if l = ''E'' then Some (M_emit_to_room ''r1'' ''receive_message'' (JStr ''hi''))
      else if l = ''C'' then Some (M_room_created
             (Some \<lparr>ri_id = JNum 7, ri_slug = ''r2'', ri_name = ''Two'', ri_type = ''direct'',
                     ri_collaboration_id = JNull\<rparr>) None)
      else None)"



text \<open>One connection that joins twice, under two names, into two rooms.\<close>

definition bob :: join_data where
  "bob = \<lparr>jd_username = Some ''bob'', jd_room = Some ''hall'', jd_userId = None\<rparr>"

definition joined_twice :: state where
  "joined_twice =
     run no_parse
       [(0, connection ''c1''), (1, join ''c1'' (Some alice)), (2, join ''c1'' (Some bob))]
       initial"

text \<open>A connection whose first frame is not the sentinel and which then joins.\<close>

definition regular_first :: state where
  "regular_first =
     run no_parse
       [(0, connection ''c1''), (1, conn_data ''c1'' ''hello''), (2, join ''c1'' (Some alice))]
       initial"

text \<open>The last member of \<^verbatim>\<open>lobby\<close> says \<^verbatim>\<open>hi\<close> and disconnects; a second user is about to join the
  emptied room.\<close>

definition hi :: jsval where
  "hi = JObj [(''content'', JStr ''hi'')]"

definition lobby_emptied :: state where
  "lobby_emptied =
     run no_parse
       [(0, connection ''c1''), (1, join ''c1'' (Some alice)), (2, send_message ''c1'' hi),
        (3, disconnect ''c1'')] initial"

definition lobby_history :: "message list" where
  "lobby_history =
     [SystemMessage (system_id 1) ''alice joined the room'' ''lobby'' 1,
      ChatMessage (msg_id 2 ''c1'') ''alice'' ''hi'' ''lobby'' 2 ''c1'' JNull,
      SystemMessage (system_id 3) ''alice left the room'' ''lobby'' 3]"

definition bob_lobby :: join_data where
  "bob_lobby = \<lparr>jd_username = Some ''bob'', jd_room = Some ''lobby'', jd_userId = None\<rparr>"

text \<open>The second user joins the emptied room one millisecond after it emptied and leaves
  it a millisecond later: two purge callbacks are pending, the first due at 300003.\<close>

definition lobby_emptied_again :: state where
  "lobby_emptied_again =
     run no_parse
       [(4, connection ''c2''), (4, join ''c2'' (Some bob_lobby)), (5, disconnect ''c2'')]
       lobby_emptied"

section \<open>Lemmas\<close>

subsection \<open>The history buffer\<close>

lemma getMessageHistory_add_same:
  "getMessageHistory (addToMessageHistory rm m s) rm =
     (if length (getMessageHistory s rm @ [m]) > MAX_MESSAGE_HISTORY
      then tl (getMessageHistory s rm @ [m]) else getMessageHistory s rm @ [m])"
  by (simp add: getMessageHistory_def addToMessageHistory_def has_def Let_def update_conv'
      split: option.splits)

lemma getMessageHistory_add_other:
  "rm' \<noteq> rm \<Longrightarrow> getMessageHistory (addToMessageHistory rm m s) rm' = getMessageHistory s rm'"
  by (simp add: getMessageHistory_def addToMessageHistory_def has_def Let_def update_conv'
      split: option.splits)

lemma map_of_add:
  "map_of (messageHistory (addToMessageHistory rm m s)) =
     (map_of (messageHistory s))(rm \<mapsto> getMessageHistory (addToMessageHistory rm m s) rm)"
  by (auto simp add: getMessageHistory_def addToMessageHistory_def has_def Let_def update_conv'
      split: option.splits)

lemma hist_ok_add:
  assumes "hist_ok (messageHistory s)"
  shows "hist_ok (messageHistory (addToMessageHistory rm m s))"
proof -
  have "length (getMessageHistory s rm) \<le> MAX_MESSAGE_HISTORY"
    using assms by (auto simp: hist_ok_def getMessageHistory_def split: option.splits)
  then have "length (getMessageHistory (addToMessageHistory rm m s) rm) \<le> MAX_MESSAGE_HISTORY"
    by (simp add: getMessageHistory_add_same)
  then show ?thesis
    using assms unfolding hist_ok_def map_of_add by auto
qed

lemma fold_add_history:
  "length (getMessageHistory s rm) \<le> MAX_MESSAGE_HISTORY \<Longrightarrow>
   getMessageHistory (fold (addToMessageHistory rm) ms s) rm =
     drop (length (getMessageHistory s rm @ ms) - MAX_MESSAGE_HISTORY) (getMessageHistory s rm @ ms)"
proof (induction ms arbitrary: s)
  case Nil
  then show ?case by simp
next
  case (Cons m ms)
  let ?s1 = "addToMessageHistory rm m s"
  let ?h = "getMessageHistory s rm"
  have len1: "length (getMessageHistory ?s1 rm) \<le> MAX_MESSAGE_HISTORY"
    using Cons.prems by (simp add: getMessageHistory_add_same)
  show ?case
  proof (cases "length ?h < MAX_MESSAGE_HISTORY")
    case True
    then have "getMessageHistory ?s1 rm = ?h @ [m]"
      by (simp add: getMessageHistory_add_same)
    then show ?thesis using Cons.IH[OF len1] by simp
  next
    case False
    then have eq: "length ?h = MAX_MESSAGE_HISTORY" using Cons.prems by simp
    then have h1: "getMessageHistory ?s1 rm = tl ?h @ [m]"
      by (cases ?h) (simp_all add: getMessageHistory_add_same MAX_MESSAGE_HISTORY_def)
    have "?h \<noteq> []" using eq by (auto simp: MAX_MESSAGE_HISTORY_def)
    then obtain x t where ht: "?h = x # t" by (cases ?h) auto
    show ?thesis using Cons.IH[OF len1] eq unfolding h1 ht by (simp add: Suc_diff_le)
  qed
qed

subsection \<open>What the helpers leave alone\<close>

lemma ensure_room_fields [simp]:
  "users (ensure_room rm s) = users s"
  "messageHistory (ensure_room rm s) = messageHistory s"
  "laravelSockets (ensure_room rm s) = laravelSockets s"
  "isLaravelClient (ensure_room rm s) = isLaravelClient s"
  "dataBuffer (ensure_room rm s) = dataBuffer s"
  "timers (ensure_room rm s) = timers s"
  by (simp_all add: ensure_room_def)

lemma room_add_fields [simp]:
  "users (room_add rm c s) = users s"
  "messageHistory (room_add rm c s) = messageHistory s"
  "laravelSockets (room_add rm c s) = laravelSockets s"
  "isLaravelClient (room_add rm c s) = isLaravelClient s"
  "dataBuffer (room_add rm c s) = dataBuffer s"
  "timers (room_add rm c s) = timers s"
  by (simp_all add: room_add_def split: option.splits)

lemma leave_room_fields [simp]:
  "users (leave_room rm c s) = users s"
  "messageHistory (leave_room rm c s) = messageHistory s"
  "laravelSockets (leave_room rm c s) = laravelSockets s"
  "isLaravelClient (leave_room rm c s) = isLaravelClient s"
  "dataBuffer (leave_room rm c s) = dataBuffer s"
  by (simp_all add: leave_room_def Let_def split: option.splits)

lemma addToMessageHistory_fields [simp]:
  "users (addToMessageHistory rm m s) = users s"
  "rooms (addToMessageHistory rm m s) = rooms s"
  "laravelSockets (addToMessageHistory rm m s) = laravelSockets s"
  "isLaravelClient (addToMessageHistory rm m s) = isLaravelClient s"
  "dataBuffer (addToMessageHistory rm m s) = dataBuffer s"
  "timers (addToMessageHistory rm m s) = timers s"
  by (simp_all add: addToMessageHistory_def Let_def)

lemma purge_callback_fields [simp]:
  "users (purge_callback rm s) = users s"
  "rooms (purge_callback rm s) = rooms s"
  "laravelSockets (purge_callback rm s) = laravelSockets s"
  "isLaravelClient (purge_callback rm s) = isLaravelClient s"
  "dataBuffer (purge_callback rm s) = dataBuffer s"
  "timers (purge_callback rm s) = timers s"
  by (simp_all add: purge_callback_def)

subsection \<open>The history bound is an invariant\<close>

lemma hist_ok_delete: "hist_ok mh \<Longrightarrow> hist_ok (AList.delete rm mh)"
  by (auto simp: hist_ok_def delete_conv' split: if_splits)

lemma hist_ok_purge:
  "hist_ok (messageHistory s) \<Longrightarrow> hist_ok (messageHistory (purge_callback rm s))"
  by (simp add: purge_callback_def hist_ok_delete)

lemma hist_ok_join:
  "hist_ok (messageHistory s) \<Longrightarrow> hist_ok (messageHistory (fst (join_handler now c d s)))"
  by (simp add: join_handler_def Let_def hist_ok_add split: option.splits)

lemma hist_ok_send_message:
  "hist_ok (messageHistory s) \<Longrightarrow>
   hist_ok (messageHistory (fst (send_message_handler now c d s)))"
  by (simp add: send_message_handler_def Let_def hist_ok_add split: option.splits outcome.splits)

lemma send_private_message_state: "fst (send_private_message_handler now c d s) = s"
  by (simp add: send_private_message_handler_def Let_def
      split: option.splits outcome.splits jsval.splits prod.splits)

lemma typing_state: "fst (typing_handler b c s) = s"
  by (simp add: typing_handler_def split: option.splits)

lemma hist_ok_change_room:
  "hist_ok (messageHistory s) \<Longrightarrow>
   hist_ok (messageHistory (fst (change_room_handler now c r s)))"
  by (simp add: change_room_handler_def Let_def hist_ok_add split: option.splits)

lemma hist_ok_disconnect:
  "hist_ok (messageHistory s) \<Longrightarrow>
   hist_ok (messageHistory (fst (disconnect_handler now c s)))"
  by (simp add: disconnect_handler_def Let_def hist_ok_add split: option.splits)

lemma hist_ok_room_emit:
  "hist_ok (messageHistory s) \<Longrightarrow>
   hist_ok (messageHistory (fst (handleLaravelRoomEmit rm ev d s)))"
  by (simp add: handleLaravelRoomEmit_def Let_def hist_ok_add)

lemma room_creation_fields [simp]:
  "users (fst (handleLaravelRoomCreation now r nu s)) = users s"
  "messageHistory (fst (handleLaravelRoomCreation now r nu s)) = messageHistory s"
  "isLaravelClient (fst (handleLaravelRoomCreation now r nu s)) = isLaravelClient s"
  by (simp_all add: handleLaravelRoomCreation_def Let_def split: option.splits)

lemma presence_state [simp]: "fst (handleLaravelPresenceUpdate now u st r s) = s"
  by (simp add: handleLaravelPresenceUpdate_def split: option.splits)

lemma hist_ok_process_message:
  "hist_ok (messageHistory s) \<Longrightarrow>
   hist_ok (messageHistory (fst (processLaravelMessage parse now c l s)))"
  by (simp add: processLaravelMessage_def handleLaravelEmit_def hist_ok_room_emit
      split: option.splits bridge_message.splits)

lemma hist_ok_process_lines:
  "hist_ok (messageHistory s) \<Longrightarrow>
   hist_ok (messageHistory (fst (process_lines parse now c ls s)))"
proof (induction ls arbitrary: s)
  case Nil
  then show ?case by simp
next
  case (Cons l ls)
  let ?s1 = "fst (if trim l \<noteq> [] then processLaravelMessage parse now c l s else (s, []))"
  have "hist_ok (messageHistory ?s1)"
    using Cons.prems by (simp add: hist_ok_process_message)
  from Cons.IH[OF this] show ?case
    by (simp add: split_beta Let_def)
qed

lemma hist_ok_data:
  "hist_ok (messageHistory s) \<Longrightarrow>
   hist_ok (messageHistory (fst (data_handler parse now c d s)))"
  by (simp add: data_handler_def Let_def hist_ok_process_lines)

lemma hist_ok_step:
  "hist_ok (messageHistory s) \<Longrightarrow> hist_ok (messageHistory (fst (step parse now i s)))"
proof (cases i)
  case (laravel_emit_to_room c d)
  assume "hist_ok (messageHistory s)"
  then show ?thesis using laravel_emit_to_room
    by (simp add: laravel_emit_to_room_handler_def Let_def hist_ok_add split: option.splits)
qed (simp_all add: hist_ok_data hist_ok_join hist_ok_send_message send_private_message_state
      typing_state hist_ok_change_room hist_ok_disconnect hist_ok_purge
      get_rooms_handler_def get_room_users_handler_def laravel_emit_handler_def
      laravel_room_created_handler_def laravel_presence_update_handler_def
      split: option.splits)

lemma hist_ok_reachable: "reachable parse s \<Longrightarrow> hist_ok (messageHistory s)"
proof (induction rule: reachable.induct)
  case reachable_initial
  show ?case by (simp add: initial_def hist_ok_def)
next
  case (reachable_step s now i)
  from reachable_step.IH show ?case by (rule hist_ok_step)
qed

subsection \<open>Distinct usernames\<close>

lemma set_update_subset: "set (AList.update k v al) \<subseteq> insert (k, v) (set al)"
  by (induction al) auto

lemma distinct_values_update:
  "distinct (map (\<lambda>p. g (snd p)) al) \<Longrightarrow> \<forall>p\<in>set al. g (snd p) \<noteq> g v \<Longrightarrow>
   distinct (map (\<lambda>p. g (snd p)) (AList.update k v al))"
proof (induction al)
  case Nil
  then show ?case by simp
next
  case (Cons p ps)
  show ?case
  proof (cases "fst p = k")
    case True
    then show ?thesis using Cons.prems by auto
  next
    case False
    have "g (snd p) \<notin> (\<lambda>p. g (snd p)) ` set (AList.update k v ps)"
    proof
      assume "g (snd p) \<in> (\<lambda>p. g (snd p)) ` set (AList.update k v ps)"
      then obtain q where q: "q \<in> set (AList.update k v ps)" "g (snd q) = g (snd p)" by auto
      then have "q = (k, v) \<or> q \<in> set ps" using set_update_subset[of k v ps] by auto
      then show False
      proof
        assume "q = (k, v)"
        then show False using q(2) Cons.prems(2) by simp
      next
        assume "q \<in> set ps"
        then have "g (snd q) \<in> (\<lambda>p. g (snd p)) ` set ps" by (rule imageI)
        then show False using q(2) Cons.prems(1) by simp
      qed
    qed
    then show ?thesis using False Cons by auto
  qed
qed

lemma values_update_same:
  "map_of al k = Some v \<Longrightarrow> g v' = g v \<Longrightarrow>
   map (\<lambda>p. g (snd p)) (AList.update k v' al) = map (\<lambda>p. g (snd p)) al"
  by (induction al) (auto split: if_splits)

lemma distinct_values_delete:
  "distinct (map f al) \<Longrightarrow> distinct (map f (AList.delete k al))"
  unfolding AList.delete_eq by (rule distinct_map_filter)

lemma findByUsername_None:
  "findByUsername s name = None \<longleftrightarrow> toLowerCase name \<notin> set (lower_names s)"
  by (force simp: findByUsername_def lower_names_def find_None_iff)

lemma names_join:
  "distinct (lower_names s) \<Longrightarrow> distinct (lower_names (fst (join_handler now c d s)))"
  by (auto simp add: join_handler_def Let_def lower_names_def findByUsername_def find_None_iff
      intro!: distinct_values_update[where g = "\<lambda>u. toLowerCase (username u)"]
      split: option.splits)

lemma names_change_room:
  "distinct (lower_names s) \<Longrightarrow> distinct (lower_names (fst (change_room_handler now c r s)))"
  by (simp add: change_room_handler_def Let_def lower_names_def
      values_update_same[where g = "\<lambda>u. toLowerCase (username u)"]
      split: option.splits)

lemma names_disconnect:
  "distinct (lower_names s) \<Longrightarrow> distinct (lower_names (fst (disconnect_handler now c s)))"
  by (simp add: disconnect_handler_def Let_def lower_names_def distinct_values_delete
      split: option.splits)

lemma users_send_message [simp]: "users (fst (send_message_handler now c d s)) = users s"
  by (simp add: send_message_handler_def Let_def split: option.splits outcome.splits)

lemma users_room_emit [simp]: "users (fst (handleLaravelRoomEmit rm ev d s)) = users s"
  by (simp add: handleLaravelRoomEmit_def Let_def)

lemma users_process_message [simp]:
  "users (fst (processLaravelMessage parse now c l s)) = users s"
  by (simp add: processLaravelMessage_def handleLaravelEmit_def
      split: option.splits bridge_message.splits)

lemma users_process_lines [simp]: "users (fst (process_lines parse now c ls s)) = users s"
  by (induction ls arbitrary: s) (simp_all add: split_beta Let_def)

lemma users_data [simp]: "users (fst (data_handler parse now c d s)) = users s"
  by (simp add: data_handler_def Let_def)

lemma names_step:
  "distinct (lower_names s) \<Longrightarrow> distinct (lower_names (fst (step parse now i s)))"
proof (cases i)
  case (laravel_emit_to_room c d)
  assume "distinct (lower_names s)"
  then show ?thesis using laravel_emit_to_room
    by (simp add: laravel_emit_to_room_handler_def Let_def lower_names_def split: option.splits)
next
  case (conn_data c d)
  assume "distinct (lower_names s)"
  then show ?thesis using conn_data by (simp add: lower_names_def)
next
  case (send_message c d)
  assume "distinct (lower_names s)"
  then show ?thesis using send_message by (simp add: lower_names_def)
next
  case (laravel_room_created c r nu)
  assume "distinct (lower_names s)"
  then show ?thesis using laravel_room_created
    by (simp add: lower_names_def laravel_room_created_handler_def)
next
  case (purge_timeout rm)
  assume "distinct (lower_names s)"
  then show ?thesis using purge_timeout by (simp add: lower_names_def)
next
  case (connection c)
  assume "distinct (lower_names s)"
  then show ?thesis using connection by (simp add: lower_names_def)
qed (simp_all add: names_join send_private_message_state
      typing_state names_change_room names_disconnect
      get_rooms_handler_def get_room_users_handler_def laravel_emit_handler_def
      laravel_presence_update_handler_def
      split: option.splits)

lemma names_reachable: "reachable parse s \<Longrightarrow> distinct (lower_names s)"
proof (induction rule: reachable.induct)
  case reachable_initial
  show ?case by (simp add: initial_def lower_names_def)
next
  case (reachable_step s now i)
  from reachable_step.IH show ?case by (rule names_step)
qed

subsection \<open>Runs\<close>

lemma reachable_run: "reachable parse s \<Longrightarrow> reachable parse (run parse tis s)"
  unfolding run_def
  by (induction tis arbitrary: s) (auto intro: reachable_step)

subsection \<open>Stored usernames are valid\<close>

lemma of_char_toLowerChar:
  "of_char (toLowerChar ch) = (let n = (of_char ch :: nat) in if 65 \<le> n \<and> n \<le> 90 then n + 32 else n)"
  by (simp add: toLowerChar_def Let_def)

lemma name_char_lower: "name_char (toLowerChar ch) = name_char ch"
proof (cases "65 \<le> (of_char ch :: nat) \<and> (of_char ch :: nat) \<le> 90")
  case True
  then have "(of_char (toLowerChar ch) :: nat) = of_char ch + 32"
    by (simp add: of_char_toLowerChar)
  then show ?thesis using True by (simp add: name_char_def Let_def)
next
  case False
  then have "toLowerChar ch = ch" by (auto simp add: toLowerChar_def Let_def)
  then show ?thesis by simp
qed

lemma valid_lower_eq:
  assumes "toLowerCase a = toLowerCase b"
  shows "isValidUsername (Some a) = isValidUsername (Some b)"
proof -
  have len: "length a = length b"
    using assms by (metis length_map toLowerCase_def)
  have "list_all name_char (toLowerCase x) = list_all name_char x" for x
    by (induction x) (simp_all add: toLowerCase_def name_char_lower)
  then have "list_all name_char a = list_all name_char b" using assms by metis
  then show ?thesis using len by (auto simp add: isValidUsername_def)
qed

lemma names_valid_update:
  "names_valid s \<Longrightarrow> isValidUsername (Some (username u)) \<Longrightarrow>
   names_valid (s\<lparr>users := AList.update c u (users s)\<rparr>)"
  using set_update_subset[of c u "users s"] by (auto simp: names_valid_def)

lemma join_rejected: "\<not> join_accepted s c d \<Longrightarrow> fst (join_handler now c d s) = s"
  by (auto simp add: join_accepted_def join_handler_def Let_def split: option.splits)

lemma join_accepted_state:
  "join_accepted s c (Some d) \<Longrightarrow>
   fst (join_handler now c (Some d) s) =
     addToMessageHistory (requested_room d)
       (SystemMessage (system_id now) (username (joined_user now c d) @ '' joined the room'')
          (requested_room d) now)
       (room_add (requested_room d) c (ensure_room (requested_room d)
          (s\<lparr>users := AList.update c (joined_user now c d) (users s)\<rparr>)))"
  by (auto simp add: join_accepted_def join_handler_def Let_def joined_user_def
      split: option.splits)

lemma join_accepted_name:
  "join_accepted s c (Some d) \<Longrightarrow>
   isValidUsername (Some (username (joined_user now c d))) \<and>
   findByUsername s (username (joined_user now c d)) = None"
  by (auto simp add: join_accepted_def joined_user_def split: option.splits)

lemma join_accepted_Some: "join_accepted s c d \<Longrightarrow> \<exists>dd. d = Some dd"
  by (cases d) (simp_all add: join_accepted_def)

lemma names_valid_join:
  "names_valid s \<Longrightarrow> names_valid (fst (join_handler now c d s))"
proof (cases "join_accepted s c d")
  case False
  assume "names_valid s"
  then show ?thesis using False by (simp add: join_rejected)
next
  case True
  assume nv: "names_valid s"
  from True obtain dd where d: "d = Some dd" using join_accepted_Some by blast
  have "names_valid (s\<lparr>users := AList.update c (joined_user now c dd) (users s)\<rparr>)"
    using nv join_accepted_name[of s c dd now] True d by (simp add: names_valid_update)
  then show ?thesis using True d by (simp add: join_accepted_state names_valid_def)
qed

lemma names_valid_change_room:
  "names_valid s \<Longrightarrow> names_valid (fst (change_room_handler now c r s))"
proof (cases "map_of (users s) c")
  case None
  assume "names_valid s"
  then show ?thesis using None by (simp add: change_room_handler_def)
next
  case (Some u)
  assume nv: "names_valid s"
  have "(c, u) \<in> set (users s)" using Some by (rule map_of_SomeD)
  then have "isValidUsername (Some (username u))" using nv by (auto simp: names_valid_def)
  then show ?thesis
    using nv Some set_update_subset[of c "u\<lparr>room := r\<rparr>" "users s"]
    by (auto simp add: change_room_handler_def Let_def names_valid_def)
qed

lemma names_valid_disconnect:
  "names_valid s \<Longrightarrow> names_valid (fst (disconnect_handler now c s))"
  by (auto simp add: disconnect_handler_def Let_def names_valid_def AList.delete_eq
      split: option.splits)

lemma users_step_other:
  "(\<exists>c d. i = join c d) \<or> (\<exists>c r. i = change_room c r) \<or> (\<exists>c. i = disconnect c) \<or>
   users (fst (step parse now i s)) = users s"
  by (cases i)
    (simp_all add: send_private_message_state typing_state get_rooms_handler_def
      get_room_users_handler_def laravel_emit_handler_def laravel_emit_to_room_handler_def
      laravel_room_created_handler_def laravel_presence_update_handler_def Let_def
      split: option.splits)

lemma names_valid_step: "names_valid s \<Longrightarrow> names_valid (fst (step parse now i s))"
proof -
  assume nv: "names_valid s"
  consider (j) c d where "i = join c d" | (ch) c r where "i = change_room c r"
    | (dc) c where "i = disconnect c"
    | (other) "users (fst (step parse now i s)) = users s"
    using users_step_other[of i parse now s] by blast
  then show ?thesis
  proof cases
    case j
    then show ?thesis using nv by (simp add: names_valid_join)
  next
    case ch
    then show ?thesis using nv by (simp add: names_valid_change_room)
  next
    case dc
    then show ?thesis using nv by (simp add: names_valid_disconnect)
  next
    case other
    then show ?thesis using nv by (simp add: names_valid_def)
  qed
qed

lemma names_valid_reachable: "reachable parse s \<Longrightarrow> names_valid s"
proof (induction rule: reachable.induct)
  case reachable_initial
  show ?case by (simp add: initial_def names_valid_def)
next
  case (reachable_step s now i)
  from reachable_step.IH show ?case by (rule names_valid_step)
qed

lemma join_unchanged_on_match:
  "toLowerCase name \<in> set (lower_names s) \<Longrightarrow> jd_username d = Some name \<Longrightarrow>
   fst (join_handler now c (Some d) s) = s"
  by (simp add: join_handler_def Let_def findByUsername_None)

subsection \<open>Rooms with members\<close>

lemma change_room_rejected:
  "\<not> change_room_accepted s c r \<Longrightarrow> fst (change_room_handler now c r s) = s"
  by (auto simp add: change_room_accepted_def change_room_handler_def has_def split: option.splits)

lemma change_room_accepted_state:
  assumes "change_room_accepted s c r" "map_of (users s) c = Some u"
  shows "users (fst (change_room_handler now c r s)) = AList.update c (u\<lparr>room := r\<rparr>) (users s)"
    and "rooms (fst (change_room_handler now c r s)) =
           rooms (room_add r c (ensure_room r (leave_room (room u) c s)))"
  using assms
  by (simp_all add: change_room_accepted_def change_room_handler_def Let_def
      room_add_def ensure_room_def split: option.splits)

lemma map_of_rooms_enter:
  "map_of (rooms (room_add rm c (ensure_room rm s))) =
     (map_of (rooms s))(rm \<mapsto> Set_add c (members s rm))"
  by (auto simp add: room_add_def ensure_room_def has_def members_def update_conv'
      split: option.splits)

lemma map_of_rooms_leave:
  "map_of (rooms (leave_room rm c s)) =
     (case map_of (rooms s) rm of
        None \<Rightarrow> map_of (rooms s)
      | Some m \<Rightarrow> if Set_delete c m = [] then (map_of (rooms s))(rm := None)
                  else (map_of (rooms s))(rm \<mapsto> Set_delete c m))"
  by (auto simp add: leave_room_def Let_def update_conv' delete_conv' split: option.splits)






lemma rooms_disconnect:
  "rooms (fst (disconnect_handler now c s)) =
     (if isLaravelClient s c then rooms s
      else case map_of (users s) c of None \<Rightarrow> rooms s
           | Some u \<Rightarrow> rooms (leave_room (room u) c s))"
  by (simp add: disconnect_handler_def Let_def leave_room_def split: option.splits)


lemma rooms_send_message [simp]: "rooms (fst (send_message_handler now c d s)) = rooms s"
  by (simp add: send_message_handler_def Let_def split: option.splits outcome.splits)







subsection \<open>Members and user records\<close>

lemma rooms_grow_refl: "users s' = users s \<Longrightarrow> rooms s' = rooms s \<Longrightarrow> rooms_grow s s'"
  by (simp add: rooms_grow_def)

lemma rooms_grow_trans: "rooms_grow s s1 \<Longrightarrow> rooms_grow s1 s2 \<Longrightarrow> rooms_grow s s2"
  unfolding rooms_grow_def by (metis (no_types, lifting))

lemma map_of_rooms_ensure:
  "map_of (rooms (ensure_room rm s)) =
     (if has (rooms s) rm then map_of (rooms s) else (map_of (rooms s))(rm \<mapsto> []))"
  by (simp add: ensure_room_def update_conv')

lemma rooms_grow_ensure: "rooms_grow s (ensure_room rm s)"
  by (auto simp add: rooms_grow_def map_of_rooms_ensure split: if_splits)

lemma rooms_grow_room_emit: "rooms_grow s (fst (handleLaravelRoomEmit rm ev d s))"
  using rooms_grow_ensure[of s rm]
  by (simp add: handleLaravelRoomEmit_def Let_def rooms_grow_def)

lemma rooms_grow_room_creation: "rooms_grow s (fst (handleLaravelRoomCreation now r nu s))"
  using rooms_grow_ensure[of s]
  by (auto simp add: handleLaravelRoomCreation_def Let_def rooms_grow_refl split: option.splits)

lemma rooms_grow_process_message: "rooms_grow s (fst (processLaravelMessage parse now c l s))"
  by (simp add: processLaravelMessage_def handleLaravelEmit_def rooms_grow_refl
      rooms_grow_room_emit rooms_grow_room_creation
      split: option.splits bridge_message.splits)

lemma rooms_grow_process_lines: "rooms_grow s (fst (process_lines parse now c ls s))"
proof (induction ls arbitrary: s)
  case Nil
  show ?case by (simp add: rooms_grow_refl)
next
  case (Cons l ls)
  let ?s1 = "fst (if trim l \<noteq> [] then processLaravelMessage parse now c l s else (s, []))"
  have "rooms_grow s ?s1" by (simp add: rooms_grow_process_message rooms_grow_refl)
  moreover have "rooms_grow ?s1 (fst (process_lines parse now c ls ?s1))" by (rule Cons.IH)
  ultimately have "rooms_grow s (fst (process_lines parse now c ls ?s1))"
    by (rule rooms_grow_trans)
  then show ?case by (simp add: split_beta Let_def)
qed

lemma rooms_grow_data: "rooms_grow s (fst (data_handler parse now c d s))"
proof -
  have "rooms_grow (s\<lparr>dataBuffer := b\<rparr>) (fst (process_lines parse now c ls (s\<lparr>dataBuffer := b\<rparr>)))"
    for b ls by (rule rooms_grow_process_lines)
  then have "rooms_grow s (fst (process_lines parse now c ls (s\<lparr>dataBuffer := b\<rparr>)))" for b ls
    by (simp add: rooms_grow_def)
  then show ?thesis
    by (simp add: data_handler_def Let_def rooms_grow_refl)
qed

lemma rooms_grow_step_other:
  "(\<exists>c d. i = join c d) \<or> (\<exists>c r. i = change_room c r) \<or> (\<exists>c. i = disconnect c) \<or>
   rooms_grow s (fst (step parse now i s))"
proof (cases i)
  case (laravel_emit_to_room c d)
  show ?thesis using laravel_emit_to_room rooms_grow_ensure[of s]
    by (auto simp add: laravel_emit_to_room_handler_def Let_def rooms_grow_def
        split: option.splits)
qed (simp_all add: rooms_grow_data rooms_grow_refl send_private_message_state typing_state
      get_rooms_handler_def get_room_users_handler_def laravel_emit_handler_def
      laravel_room_created_handler_def laravel_presence_update_handler_def
      rooms_grow_room_creation purge_callback_def
      split: option.splits)

lemma consistent_grow:
  "membership_consistent s \<Longrightarrow> rooms_grow s s' \<Longrightarrow> membership_consistent s'"
  unfolding membership_consistent_def rooms_grow_def by fastforce

lemma set_Set_add: "set (Set_add c m) = insert c (set m)"
  by (auto simp: Set_add_def)

lemma set_Set_delete: "set (Set_delete c m) = set m - {c}"
  by (simp add: Set_delete_def)

lemma members_mem:
  "c \<in> set (members s rm) \<Longrightarrow> \<exists>m. map_of (rooms s) rm = Some m \<and> c \<in> set m"
  by (cases "map_of (rooms s) rm") (simp_all add: members_def)

lemma consistent_join:
  assumes inv: "membership_consistent s" and fresh: "\<not> has (users s) c"
  shows "membership_consistent (fst (join_handler now c d s))"
proof (cases "join_accepted s c d")
  case False
  then show ?thesis using inv by (simp add: join_rejected)
next
  case True
  from True obtain dd where d: "d = Some dd" using join_accepted_Some by blast
  let ?rm = "requested_room dd"
  let ?s' = "fst (join_handler now c d s)"
  have us: "map_of (users ?s') = (map_of (users s))(c \<mapsto> joined_user now c dd)"
    using True d by (simp add: join_accepted_state update_conv')
  have rs: "map_of (rooms ?s') = (map_of (rooms s))(?rm \<mapsto> Set_add c (members s ?rm))"
    using True d map_of_rooms_enter[of ?rm c "s\<lparr>users := AList.update c (joined_user now c dd) (users s)\<rparr>"]
    by (simp add: join_accepted_state members_def)
  have notmem: "c \<notin> set m" if "map_of (rooms s) rm = Some m" for rm m
    using inv fresh that unfolding membership_consistent_def has_def by blast
  show ?thesis
    unfolding membership_consistent_def
  proof (intro allI impI)
    fix rm m c'
    assume m: "map_of (rooms ?s') rm = Some m" and c': "c' \<in> set m"
    show "\<exists>u. map_of (users ?s') c' = Some u \<and> room u = rm"
    proof (cases "c' = c")
      case True
      have "rm = ?rm"
      proof (rule ccontr)
        assume "rm \<noteq> ?rm"
        then have "map_of (rooms s) rm = Some m" using m rs by simp
        then show False using notmem c' True by blast
      qed
      then show ?thesis using True us by (simp add: joined_user_def)
    next
      case False
      have "\<exists>m0. map_of (rooms s) rm = Some m0 \<and> c' \<in> set m0"
      proof (cases "rm = ?rm")
        case True
        then have "m = Set_add c (members s ?rm)" using m rs by simp
        then have "c' \<in> set (members s ?rm)" using c' False by (simp add: set_Set_add)
        then show ?thesis using True members_mem by blast
      next
        case False
        then show ?thesis using m rs c' by simp
      qed
      then obtain u where "map_of (users s) c' = Some u" "room u = rm"
        using inv unfolding membership_consistent_def by blast
      then show ?thesis using False us by simp
    qed
  qed
qed

lemma consistent_change_room:
  assumes inv: "membership_consistent s"
  shows "membership_consistent (fst (change_room_handler now c r s))"
proof (cases "change_room_accepted s c r")
  case False
  then show ?thesis using inv by (simp add: change_room_rejected)
next
  case True
  from True obtain u where u: "map_of (users s) c = Some u"
    by (auto simp: change_room_accepted_def has_def)
  let ?s' = "fst (change_room_handler now c r s)"
  let ?l = "leave_room (room u) c s"
  have us: "map_of (users ?s') = (map_of (users s))(c \<mapsto> u\<lparr>room := r\<rparr>)"
    using change_room_accepted_state(1)[OF True u, of now] by (simp add: update_conv')
  have rs: "map_of (rooms ?s') = (map_of (rooms ?l))(r \<mapsto> Set_add c (members ?l r))"
    using change_room_accepted_state(2)[OF True u, of now] by (simp add: map_of_rooms_enter)
  have left: "\<exists>m0. map_of (rooms s) rm = Some m0 \<and> set m \<subseteq> set m0 \<and> (rm = room u \<longrightarrow> c \<notin> set m)"
    if "map_of (rooms ?l) rm = Some m" for rm m
    using that unfolding map_of_rooms_leave
    by (auto simp: set_Set_delete split: option.splits if_splits)
  show ?thesis
    unfolding membership_consistent_def
  proof (intro allI impI)
    fix rm m c'
    assume m: "map_of (rooms ?s') rm = Some m" and c': "c' \<in> set m"
    show "\<exists>u'. map_of (users ?s') c' = Some u' \<and> room u' = rm"
    proof (cases "c' = c")
      case True
      have "rm = r"
      proof (rule ccontr)
        assume ne: "rm \<noteq> r"
        then have "map_of (rooms ?l) rm = Some m" using m rs by simp
        from left[OF this] obtain m0 where m0: "map_of (rooms s) rm = Some m0" "set m \<subseteq> set m0"
          "rm = room u \<longrightarrow> c \<notin> set m" by blast
        then have "c \<in> set m0" using c' True by blast
        then have "room u = rm" using inv m0(1) u unfolding membership_consistent_def by fastforce
        then show False using m0(3) c' True by simp
      qed
      then show ?thesis using True us by simp
    next
      case False
      have "\<exists>m0. map_of (rooms s) rm = Some m0 \<and> c' \<in> set m0"
      proof (cases "rm = r")
        case True
        then have "m = Set_add c (members ?l r)" using m rs by simp
        then have "c' \<in> set (members ?l r)" using c' False by (simp add: set_Set_add)
        then obtain m1 where "map_of (rooms ?l) r = Some m1" "c' \<in> set m1"
          using members_mem by blast
        then show ?thesis using left True by blast
      next
        case False
        then have "map_of (rooms ?l) rm = Some m" using m rs by simp
        then show ?thesis using left c' by blast
      qed
      then obtain u' where "map_of (users s) c' = Some u'" "room u' = rm"
        using inv unfolding membership_consistent_def by blast
      then show ?thesis using False us by simp
    qed
  qed
qed

lemma consistent_disconnect:
  assumes inv: "membership_consistent s"
  shows "membership_consistent (fst (disconnect_handler now c s))"
proof (cases "isLaravelClient s c")
  case True
  then show ?thesis using inv by (simp add: disconnect_handler_def membership_consistent_def)
next
  case False
  show ?thesis
  proof (cases "map_of (users s) c")
    case None
    then show ?thesis using inv False by (simp add: disconnect_handler_def)
  next
    case (Some u)
    let ?s' = "fst (disconnect_handler now c s)"
    let ?l = "leave_room (room u) c s"
    have us: "map_of (users ?s') = (map_of (users s))(c := None)"
      using False Some by (simp add: disconnect_handler_def Let_def delete_conv')
    have rs: "map_of (rooms ?s') = map_of (rooms ?l)"
      using False Some by (simp add: rooms_disconnect)
    have left: "\<exists>m0. map_of (rooms s) rm = Some m0 \<and> set m \<subseteq> set m0 \<and> (rm = room u \<longrightarrow> c \<notin> set m)"
      if "map_of (rooms ?l) rm = Some m" for rm m
      using that unfolding map_of_rooms_leave
      by (auto simp: set_Set_delete split: option.splits if_splits)
    show ?thesis
      unfolding membership_consistent_def
    proof (intro allI impI)
      fix rm m c'
      assume m: "map_of (rooms ?s') rm = Some m" and c': "c' \<in> set m"
      from left[of rm m] m rs obtain m0 where m0: "map_of (rooms s) rm = Some m0"
        "set m \<subseteq> set m0" "rm = room u \<longrightarrow> c \<notin> set m" by auto
      then obtain u' where u': "map_of (users s) c' = Some u'" "room u' = rm"
        using inv c' unfolding membership_consistent_def by blast
      have "c' \<noteq> c"
      proof
        assume "c' = c"
        then have "room u = rm" using u' Some by simp
        then show False using m0(3) c' \<open>c' = c\<close> by simp
      qed
      then show "\<exists>u. map_of (users ?s') c' = Some u \<and> room u = rm" using u' us by simp
    qed
  qed
qed

lemma consistent_step:
  assumes "membership_consistent s" "\<not> rejoin i s"
  shows "membership_consistent (fst (step parse now i s))"
proof -
  consider (j) c d where "i = join c d" | (ch) c r where "i = change_room c r"
    | (dc) c where "i = disconnect c"
    | (other) "rooms_grow s (fst (step parse now i s))"
    using rooms_grow_step_other[of i s parse now] by blast
  then show ?thesis
  proof cases
    case j
    then show ?thesis using assms by (simp add: consistent_join)
  next
    case ch
    then show ?thesis using assms(1) by (simp add: consistent_change_room)
  next
    case dc
    then show ?thesis using assms(1) by (simp add: consistent_disconnect)
  next
    case other
    with assms(1) show ?thesis by (rule consistent_grow)
  qed
qed

lemma consistent_join_once: "reachable_join_once parse s \<Longrightarrow> membership_consistent s"
proof (induction rule: reachable_join_once.induct)
  case join_once_initial
  show ?case by (simp add: initial_def membership_consistent_def)
next
  case (join_once_step s i now)
  then show ?case by (simp add: consistent_step)
qed

subsection \<open>The classification flag\<close>

lemma flag_join [simp]: "isLaravelClient (fst (join_handler now c d s)) = isLaravelClient s"
  by (simp add: join_handler_def Let_def split: option.splits)

lemma flag_send_message [simp]:
  "isLaravelClient (fst (send_message_handler now c d s)) = isLaravelClient s"
  by (simp add: send_message_handler_def Let_def split: option.splits outcome.splits)

lemma flag_change_room [simp]:
  "isLaravelClient (fst (change_room_handler now c r s)) = isLaravelClient s"
  by (simp add: change_room_handler_def Let_def split: option.splits)

lemma flag_disconnect [simp]:
  "isLaravelClient (fst (disconnect_handler now c s)) = isLaravelClient s"
  by (simp add: disconnect_handler_def Let_def split: option.splits)

lemma flag_room_emit [simp]:
  "isLaravelClient (fst (handleLaravelRoomEmit rm ev d s)) = isLaravelClient s"
  by (simp add: handleLaravelRoomEmit_def Let_def)

lemma flag_process_message [simp]:
  "isLaravelClient (fst (processLaravelMessage parse now c l s)) = isLaravelClient s"
  by (simp add: processLaravelMessage_def handleLaravelEmit_def
      split: option.splits bridge_message.splits)

lemma flag_process_lines [simp]:
  "isLaravelClient (fst (process_lines parse now c ls s)) = isLaravelClient s"
  by (induction ls arbitrary: s) (simp_all add: split_beta Let_def)

lemma flag_data:
  "isLaravelClient (fst (data_handler parse now c d s)) =
     (if trim d = sentinel then (isLaravelClient s)(c := True) else isLaravelClient s)"
  by (simp add: data_handler_def Let_def)

lemma flag_step:
  "isLaravelClient (fst (step parse now i s)) =
     (case i of
        connection c \<Rightarrow> (isLaravelClient s)(c := False)
      | conn_data c d \<Rightarrow>
          (if trim d = sentinel then (isLaravelClient s)(c := True) else isLaravelClient s)
      | _ \<Rightarrow> isLaravelClient s)"
  by (cases i)
    (simp_all add: flag_data send_private_message_state typing_state get_rooms_handler_def
      get_room_users_handler_def laravel_emit_handler_def laravel_emit_to_room_handler_def
      laravel_room_created_handler_def laravel_presence_update_handler_def Let_def
      split: option.splits)

text \<open>The regular-client handlers return at once on a bridge connection.\<close>

lemma bridge_connection_skipped:
  assumes "isLaravelClient s c"
  shows "step parse now (join c userData) s = (s, [])"
    and "step parse now (send_message c messageData) s = (s, [])"
    and "step parse now (send_private_message c messageData) s = (s, [])"
    and "step parse now (typing c) s = (s, [])"
    and "step parse now (stop_typing c) s = (s, [])"
    and "step parse now (change_room c newRoom) s = (s, [])"
    and "step parse now (get_rooms c) s = (s, [])"
    and "step parse now (get_room_users c rm) s = (s, [])"
  using assms
  by (simp_all add: join_handler_def send_message_handler_def send_private_message_handler_def
      typing_handler_def change_room_handler_def get_rooms_handler_def
      get_room_users_handler_def)

subsection \<open>Sanitizing and room tracking\<close>

lemma sanitizeInput_throws: "\<not> is_string v \<Longrightarrow> sanitizeInput v = Throws"
  by (cases v) simp_all

lemma has_ensure_room: "has (rooms (ensure_room rm s)) rm"
  by (simp add: ensure_room_def has_def update_conv')

subsection \<open>Evaluating the examples\<close>

lemmas handler_defs =
  join_handler_def send_message_handler_def send_private_message_handler_def
  typing_handler_def change_room_handler_def get_rooms_handler_def get_room_users_handler_def
  disconnect_handler_def data_handler_def laravel_emit_handler_def
  laravel_emit_to_room_handler_def laravel_room_created_handler_def
  laravel_presence_update_handler_def processLaravelMessage_def handleLaravelEmit_def
  handleLaravelRoomEmit_def handleLaravelRoomCreation_def handleLaravelPresenceUpdate_def

lemmas helper_defs =
  run_def initial_def requested_room_def isValidUsername_def isValidRoomName_def
  name_char_def findByUsername_def toLowerCase_def toLowerChar_def ensure_room_def
  room_add_def leave_room_def has_def Set_add_def Set_delete_def getMessageHistory_def
  addToMessageHistory_def room_size_def roomUsers_def purge_callback_def
  MAX_MESSAGE_HISTORY_def MAX_USERNAME_LENGTH_def MAX_ROOM_NAME_LENGTH_def
  MAX_MESSAGE_LENGTH_def trim_def is_space_def sentinel_def List.map_filter_def Let_def

lemma alice_joined_users: "users alice_joined = [(''c1'', alice_user)]"
  by (simp add: alice_joined_def alice_def alice_user_def no_parse_def handler_defs helper_defs)

lemma alice_joined_flag: "isLaravelClient alice_joined = (\<lambda>c. False)"
  by (simp add: alice_joined_def alice_def alice_user_def no_parse_def handler_defs helper_defs fun_eq_iff)

lemma alice_joined_flag_c1: "\<not> isLaravelClient alice_joined ''c1''"
  by (simp add: alice_joined_flag)

lemma lower_Alice: "toLowerCase ''Alice'' = ''alice''"
  by code_simp



lemma lobby_emptied_fields:
  "rooms lobby_emptied = []"
  "users lobby_emptied = []"
  "timers lobby_emptied = [''lobby'']"
  "messageHistory lobby_emptied = [(''lobby'', lobby_history)]"
  "\<not> isLaravelClient lobby_emptied ''c2''"
  by (simp_all add: lobby_emptied_def lobby_history_def hi_def alice_def no_parse_def
      handler_defs helper_defs)

lemma lobby_emptied_again_fields:
  "rooms lobby_emptied_again = []"
  "timers lobby_emptied_again = [''lobby'', ''lobby'']"
  "messageHistory lobby_emptied_again =
     [(''lobby'', lobby_history @
        [SystemMessage (system_id 4) ''bob joined the room'' ''lobby'' 4,
         SystemMessage (system_id 5) ''bob left the room'' ''lobby'' 5])]"
  by (simp_all add: lobby_emptied_again_def lobby_emptied_def lobby_history_def bob_lobby_def
      hi_def alice_def no_parse_def handler_defs helper_defs)

section \<open>The claims\<close>




text \<open>
  C2. One connection joins \<^verbatim>\<open>lobby\<close> as \<^verbatim>\<open>alice\<close> and then issues \<^verbatim>\<open>join\<close> again as \<^verbatim>\<open>bob\<close> for
  \<^verbatim>\<open>hall\<close>. The second \<^verbatim>\<open>join\<close> overwrites the user record and adds the connection to
  \<^verbatim>\<open>hall\<close> without removing it from \<^verbatim>\<open>lobby\<close>, as \<^verbatim>\<open>change_room\<close> would: \<^verbatim>\<open>lobby\<close> keeps a
  member whose user record names \<^verbatim>\<open>hall\<close>, and keeps it after the connection is gone.
  (Lemma \<open>consistent_join_once\<close> shows that nothing else breaks the consistency.)
\<close>

theorem rejoin_leaves_stale_member:
  "reachable no_parse joined_twice \<and>
   map_of (rooms joined_twice) ''lobby'' = Some [''c1''] \<and>
   map_of (users joined_twice) ''c1'' =
     Some \<lparr>username = ''bob'', room = ''hall'', socketId = ''c1'', userId = JNull,
            joinedAt = 2\<rparr> \<and>
   map_of (rooms (fst (step no_parse 3 (disconnect ''c1'') joined_twice))) ''lobby''
     = Some [''c1''] \<and>
   users (fst (step no_parse 3 (disconnect ''c1'') joined_twice)) = []"
proof -
  have r: "reachable no_parse joined_twice"
    unfolding joined_twice_def by (rule reachable_run[OF reachable_initial])
  have rs: "rooms joined_twice = [(''lobby'', [''c1'']), (''hall'', [''c1''])]"
    by (simp add: joined_twice_def alice_def bob_def no_parse_def handler_defs helper_defs)
  have us: "users joined_twice =
      [(''c1'', \<lparr>username = ''bob'', room = ''hall'', socketId = ''c1'', userId = JNull,
                 joinedAt = 2\<rparr>)]"
    by (simp add: joined_twice_def alice_def bob_def no_parse_def handler_defs helper_defs)
  have fl: "\<not> isLaravelClient joined_twice ''c1''"
    by (simp add: joined_twice_def alice_def bob_def no_parse_def handler_defs helper_defs)
  have d1: "map_of (rooms (fst (step no_parse 3 (disconnect ''c1'') joined_twice))) ''lobby''
     = Some [''c1'']"
    by (simp add: rooms_disconnect fl us rs leave_room_def Set_delete_def)
  have d2: "users (fst (step no_parse 3 (disconnect ''c1'') joined_twice)) = []"
    by (simp add: disconnect_handler_def fl us Let_def)
  show ?thesis using r rs us d1 d2 by simp
qed

text \<open>
  C3, as the code has it. A raw frame that is the sentinel token, once trimmed, makes the
  connection a bridge connection and is acknowledged, whatever came before it; any other
  frame leaves every classification as it is. A bridge connection stays one under every
  input (until the identifier names a new connection), and a connection that is not a
  bridge becomes one only through a sentinel frame of its own.
\<close>

theorem sentinel_classifies_whenever_it_arrives:
  "(trim data = sentinel \<longrightarrow>
      step parse now (conn_data c data) s =
        (s\<lparr>laravelSockets := Set_add c (laravelSockets s),
           isLaravelClient := (isLaravelClient s)(c := True)\<rparr>,
         [Emit (to_socket c) ''laravel_connected'' (P_laravel_connected now)])) \<and>
   (trim data \<noteq> sentinel \<longrightarrow>
      isLaravelClient (fst (step parse now (conn_data c data) s)) = isLaravelClient s) \<and>
   (isLaravelClient s c' \<and> i \<noteq> connection c' \<longrightarrow>
      isLaravelClient (fst (step parse now i s)) c') \<and>
   (\<not> isLaravelClient s c' \<and> isLaravelClient (fst (step parse now i s)) c' \<longrightarrow>
      (\<exists>frame. i = conn_data c' frame \<and> trim frame = sentinel))"
proof -
  have a: "trim data = sentinel \<longrightarrow>
      step parse now (conn_data c data) s =
        (s\<lparr>laravelSockets := Set_add c (laravelSockets s),
           isLaravelClient := (isLaravelClient s)(c := True)\<rparr>,
         [Emit (to_socket c) ''laravel_connected'' (P_laravel_connected now)])"
    by (simp add: data_handler_def Let_def)
  have b: "trim data \<noteq> sentinel \<longrightarrow>
      isLaravelClient (fst (step parse now (conn_data c data) s)) = isLaravelClient s"
    by (simp add: flag_data)
  have c: "isLaravelClient s c' \<and> i \<noteq> connection c' \<longrightarrow>
      isLaravelClient (fst (step parse now i s)) c'"
    unfolding flag_step by (cases i) auto
  have d: "\<not> isLaravelClient s c' \<and> isLaravelClient (fst (step parse now i s)) c' \<longrightarrow>
      (\<exists>frame. i = conn_data c' frame \<and> trim frame = sentinel)"
    unfolding flag_step by (cases i) (auto split: if_splits)
  show ?thesis using a b c d by blast
qed

theorem sentinel_classifies_whenever_it_arrives_witness:
  "trim ''LARAVEL_CLIENT'' = sentinel \<and>
   trim ''hello'' \<noteq> sentinel \<and>
   \<not> isLaravelClient regular_first ''c1'' \<and>
   isLaravelClient (fst (step no_parse 3 (conn_data ''c1'' ''LARAVEL_CLIENT'') regular_first))
     ''c1'' \<and>
   send_message ''c1'' JNull
     \<noteq> connection ''c1'' \<and>
   step no_parse 3 (conn_data ''c1'' ''LARAVEL_CLIENT'') regular_first =
     (regular_first\<lparr>laravelSockets := Set_add ''c1'' (laravelSockets regular_first),
        isLaravelClient := (isLaravelClient regular_first)(''c1'' := True)\<rparr>,
      [Emit (to_socket ''c1'') ''laravel_connected'' (P_laravel_connected 3)]) \<and>
   isLaravelClient (fst (step no_parse 4 (conn_data ''c1'' ''hello'')
       (fst (step no_parse 3 (conn_data ''c1'' ''LARAVEL_CLIENT'') regular_first))))
     = isLaravelClient (fst (step no_parse 3 (conn_data ''c1'' ''LARAVEL_CLIENT'') regular_first)) \<and>
   isLaravelClient (fst (step no_parse 4 (send_message ''c1'' JNull)
       (fst (step no_parse 3 (conn_data ''c1'' ''LARAVEL_CLIENT'') regular_first)))) ''c1''"
proof -
  let ?s = "fst (step no_parse 3 (conn_data ''c1'' ''LARAVEL_CLIENT'') regular_first)"
  have t: "trim ''LARAVEL_CLIENT'' = sentinel"
    by (simp add: trim_def is_space_def sentinel_def)
  have h: "trim ''hello'' \<noteq> sentinel"
    by (simp add: trim_def is_space_def sentinel_def)
  have f: "\<not> isLaravelClient regular_first ''c1''"
    by (simp add: regular_first_def run_def flag_data initial_def trim_def is_space_def
        sentinel_def)
  have g: "isLaravelClient ?s ''c1''"
    using t by (simp add: flag_data)
  have n: "send_message ''c1'' JNull \<noteq> connection ''c1''" by simp
  show ?thesis
    using t h f g n
      sentinel_classifies_whenever_it_arrives
        [of "''LARAVEL_CLIENT''" no_parse 3 "''c1''" regular_first "''c1''"
            "conn_data ''c1'' ''LARAVEL_CLIENT''"]
      sentinel_classifies_whenever_it_arrives
        [of "''hello''" no_parse 4 "''c1''" ?s "''c1''" "send_message ''c1'' JNull"]
    by blast
qed

text \<open>
  C3 as stated fails: the handler keeps no record of a first frame. A connection whose
  first frame was \<^verbatim>\<open>hello\<close> and which then joined as a regular user becomes a bridge
  connection, and is sent the acknowledgment, when the sentinel arrives afterwards.
\<close>

theorem sentinel_after_regular_frames_reclassifies:
  "reachable no_parse regular_first \<and>
   \<not> isLaravelClient regular_first ''c1'' \<and>
   has (users regular_first) ''c1'' \<and>
   isLaravelClient (fst (step no_parse 3 (conn_data ''c1'' ''LARAVEL_CLIENT'') regular_first))
     ''c1'' \<and>
   snd (step no_parse 3 (conn_data ''c1'' ''LARAVEL_CLIENT'') regular_first) =
     [Emit (to_socket ''c1'') ''laravel_connected'' (P_laravel_connected 3)]"
proof -
  have r: "reachable no_parse regular_first"
    unfolding regular_first_def by (rule reachable_run[OF reachable_initial])
  have f: "\<not> isLaravelClient regular_first ''c1''"
    by (simp add: regular_first_def run_def flag_data initial_def trim_def is_space_def
        sentinel_def)
  have u: "users regular_first = [(''c1'', alice_user\<lparr>joinedAt := 2\<rparr>)]"
    by (simp add: regular_first_def alice_def alice_user_def no_parse_def handler_defs
        helper_defs)
  have t: "trim ''LARAVEL_CLIENT'' = sentinel"
    by (simp add: trim_def is_space_def sentinel_def)
  show ?thesis using r f
    by (simp add: u has_def flag_step t data_handler_def Let_def)
qed

text \<open>
  C4. In every reachable state, no room's history buffer holds more than 50 entries; and
  51 appends to one room's history, from any reachable state, leave exactly the last 50 of
  them: the buffer is the appended sequence without its first entry, so the 51st entry is
  present and the 1st (an entry distinct from the others) is gone.
\<close>

theorem history_bounded_fifo:
  assumes "reachable parse s"
  shows "length (getMessageHistory s rm) \<le> 50 \<and>
         (\<forall>ms. length ms = 51 \<longrightarrow>
            getMessageHistory (fold (addToMessageHistory rm) ms s) rm = tl ms \<and>
            length (getMessageHistory (fold (addToMessageHistory rm) ms s) rm) = 50 \<and>
            last ms \<in> set (getMessageHistory (fold (addToMessageHistory rm) ms s) rm) \<and>
            (distinct ms \<longrightarrow>
               hd ms \<notin> set (getMessageHistory (fold (addToMessageHistory rm) ms s) rm)))"
proof -
  have "hist_ok (messageHistory s)" using assms by (rule hist_ok_reachable)
  then have bound: "length (getMessageHistory s rm) \<le> MAX_MESSAGE_HISTORY"
    by (auto simp: hist_ok_def getMessageHistory_def split: option.splits)
  have fifo: "getMessageHistory (fold (addToMessageHistory rm) ms s) rm = tl ms"
    if len: "length ms = 51" for ms
  proof -
    have "getMessageHistory (fold (addToMessageHistory rm) ms s) rm =
            drop (Suc (length (getMessageHistory s rm))) (getMessageHistory s rm @ ms)"
      using fold_add_history[OF bound, of ms] len by (simp add: MAX_MESSAGE_HISTORY_def)
    then show ?thesis by (simp add: drop_Suc)
  qed
  have rest: "length (tl ms) = 50 \<and> last ms \<in> set (tl ms) \<and> (distinct ms \<longrightarrow> hd ms \<notin> set (tl ms))"
    if len: "length ms = 51" for ms :: "message list"
  proof (cases ms)
    case Nil
    then show ?thesis using len by simp
  next
    case (Cons x xs)
    then have "xs \<noteq> []" using len by auto
    then show ?thesis using Cons len by simp
  qed
  show ?thesis using bound fifo rest by (simp add: MAX_MESSAGE_HISTORY_def)
qed

theorem history_bounded_fifo_witness:
  "reachable (\<lambda>l. None) initial \<and> length fifty_one = 51 \<and> distinct fifty_one \<and>
   getMessageHistory (fold (addToMessageHistory ''r1'') fifty_one initial) ''r1'' = tl fifty_one \<and>
   last fifty_one \<in> set (getMessageHistory (fold (addToMessageHistory ''r1'') fifty_one initial) ''r1'') \<and>
   hd fifty_one \<notin> set (getMessageHistory (fold (addToMessageHistory ''r1'') fifty_one initial) ''r1'')"
proof -
  have r: "reachable (\<lambda>l. None) initial" by (rule reachable_initial)
  have l: "length fifty_one = 51" by (simp add: fifty_one_def)
  have d: "distinct fifty_one" by (simp add: fifty_one_def distinct_map inj_on_def)
  show ?thesis
    using r l d history_bounded_fifo[OF r, of "''r1''"] by blast
qed

text \<open>
  C5. In every reachable state the usernames of the connected users are pairwise distinct
  when compared in lower case. A \<^verbatim>\<open>join\<close> whose username matches, in lower case, that of a
  connected user leaves the state as it was, so no user record is created; on a regular
  connection, once the room name has passed validation, the reply is the single error
  event ``Username already taken'' sent to the caller. (The matching name is itself valid,
  as every stored username is.)
\<close>

theorem usernames_distinct:
  assumes "reachable parse s"
  shows "distinct (map (\<lambda>p. toLowerCase (username (snd p))) (users s)) \<and>
         (\<forall>c d name u.
            jd_username d = Some name \<and> u \<in> snd ` set (users s) \<and>
            toLowerCase (username u) = toLowerCase name \<longrightarrow>
              fst (step parse now (join c (Some d)) s) = s \<and>
              (\<not> isLaravelClient s c \<and> isValidRoomName (requested_room d) \<longrightarrow>
                 snd (step parse now (join c (Some d)) s) = [error_to c username_taken_msg]))"
proof -
  have dist: "distinct (lower_names s)" using assms by (rule names_reachable)
  have nv: "names_valid s" using assms by (rule names_valid_reachable)
  have dup: "fst (step parse now (join c (Some d)) s) = s \<and>
             (\<not> isLaravelClient s c \<and> isValidRoomName (requested_room d) \<longrightarrow>
                snd (step parse now (join c (Some d)) s) = [error_to c username_taken_msg])"
    if d: "jd_username d = Some name" and u: "u \<in> snd ` set (users s)"
      and eq: "toLowerCase (username u) = toLowerCase name" for c d name u
  proof -
    have mem: "toLowerCase name \<in> set (lower_names s)"
      using u eq by (force simp: lower_names_def)
    have "isValidUsername (Some (username u))" using nv u by (auto simp: names_valid_def)
    then have valid: "isValidUsername (Some name)" using valid_lower_eq[OF eq] by simp
    have found: "findByUsername s name \<noteq> None" using mem by (simp add: findByUsername_None)
    show ?thesis
      using d valid found join_unchanged_on_match[OF mem d]
      by (simp add: join_handler_def Let_def)
  qed
  show ?thesis using dist dup unfolding lower_names_def by blast
qed

theorem usernames_distinct_witness:
  "reachable no_parse alice_joined \<and> jd_username alice_again = Some ''Alice'' \<and>
   alice_user \<in> snd ` set (users alice_joined) \<and>
   toLowerCase (username alice_user) = toLowerCase ''Alice'' \<and>
   \<not> isLaravelClient alice_joined ''c2'' \<and> isValidRoomName (requested_room alice_again) \<and>
   distinct (map (\<lambda>p. toLowerCase (username (snd p))) (users alice_joined)) \<and>
   fst (step no_parse 2 (join ''c2'' (Some alice_again)) alice_joined) = alice_joined \<and>
   snd (step no_parse 2 (join ''c2'' (Some alice_again)) alice_joined)
     = [error_to ''c2'' username_taken_msg]"
proof -
  have r: "reachable no_parse alice_joined"
    unfolding alice_joined_def by (rule reachable_run[OF reachable_initial])
  have n: "jd_username alice_again = Some ''Alice''" by (simp add: alice_again_def)
  have u: "alice_user \<in> snd ` set (users alice_joined)" by (simp add: alice_joined_users)
  have l: "toLowerCase (username alice_user) = toLowerCase ''Alice''"
    unfolding lower_Alice by (simp add: alice_user_def toLowerCase_def toLowerChar_def)
  have b: "\<not> isLaravelClient alice_joined ''c2''" by (simp add: alice_joined_flag)
  have v: "isValidRoomName (requested_room alice_again)"
    by (simp add: alice_again_def requested_room_def isValidRoomName_def name_char_def
        MAX_ROOM_NAME_LENGTH_def)
  show ?thesis
    using r n u l b v usernames_distinct[OF r, of 2] by blast
qed

text \<open>
  C6, as the code has it. The purge callback looks the room up when it fires: with the room
  present it does nothing, with the room absent it deletes that room's history and nothing
  else. So after an accepted \<^verbatim>\<open>join\<close> into the room, which recreates the entry, a pending
  purge that fires while the entry is there leaves the history as the join left it: the
  history from before the join with the join notice appended (under the usual bound of 50).
\<close>

theorem purge_rechecks_room:
  "(has (rooms s) rm \<longrightarrow> purge_callback rm s = s) \<and>
   (\<not> has (rooms s) rm \<longrightarrow>
      purge_callback rm s = s\<lparr>messageHistory := AList.delete rm (messageHistory s)\<rparr>) \<and>
   (rm \<in> set (timers s) \<and> has (rooms s) rm \<longrightarrow>
      messageHistory (fst (step parse now (purge_timeout rm) s)) = messageHistory s) \<and>
   (rm \<in> set (timers s) \<and> \<not> has (rooms s) rm \<longrightarrow>
      messageHistory (fst (step parse now (purge_timeout rm) s))
        = AList.delete rm (messageHistory s)) \<and>
   (join_accepted s c (Some d) \<and> requested_room d = rm \<longrightarrow>
      has (rooms (fst (step parse now (join c (Some d)) s))) rm \<and>
      getMessageHistory
        (fst (step parse later (purge_timeout rm) (fst (step parse now (join c (Some d)) s)))) rm
        = getMessageHistory (fst (step parse now (join c (Some d)) s)) rm \<and>
      getMessageHistory (fst (step parse now (join c (Some d)) s)) rm
        = (if length (getMessageHistory s rm) < 50
           then getMessageHistory s rm
                @ [SystemMessage (system_id now)
                     (username (joined_user now c d) @ '' joined the room'') rm now]
           else tl (getMessageHistory s rm
                @ [SystemMessage (system_id now)
                     (username (joined_user now c d) @ '' joined the room'') rm now])))"
proof -
  have a: "has (rooms s) rm \<longrightarrow> purge_callback rm s = s"
    by (simp add: purge_callback_def)
  have b: "\<not> has (rooms s) rm \<longrightarrow>
      purge_callback rm s = s\<lparr>messageHistory := AList.delete rm (messageHistory s)\<rparr>"
    by (simp add: purge_callback_def)
  have c: "rm \<in> set (timers s) \<and> has (rooms s) rm \<longrightarrow>
      messageHistory (fst (step parse now (purge_timeout rm) s)) = messageHistory s"
    by (simp add: purge_callback_def)
  have c': "rm \<in> set (timers s) \<and> \<not> has (rooms s) rm \<longrightarrow>
      messageHistory (fst (step parse now (purge_timeout rm) s))
        = AList.delete rm (messageHistory s)"
    by (simp add: purge_callback_def)
  have purge_keeps: "messageHistory (fst (step parse later (purge_timeout rm) s')) = messageHistory s'"
    if "has (rooms s') rm" for s'
    using that by (simp add: purge_callback_def)
  have d: "has (rooms (fst (step parse now (join c (Some d)) s))) rm \<and>
      getMessageHistory
        (fst (step parse later (purge_timeout rm) (fst (step parse now (join c (Some d)) s)))) rm
        = getMessageHistory (fst (step parse now (join c (Some d)) s)) rm \<and>
      getMessageHistory (fst (step parse now (join c (Some d)) s)) rm
        = (if length (getMessageHistory s rm) < 50
           then getMessageHistory s rm
                @ [SystemMessage (system_id now)
                     (username (joined_user now c d) @ '' joined the room'') rm now]
           else tl (getMessageHistory s rm
                @ [SystemMessage (system_id now)
                     (username (joined_user now c d) @ '' joined the room'') rm now]))"
    if acc: "join_accepted s c (Some d)" and rm: "requested_room d = rm"
  proof -
    let ?s' = "fst (step parse now (join c (Some d)) s)"
    have h: "has (rooms ?s') rm"
      using acc rm map_of_rooms_enter[of rm c "s\<lparr>users := AList.update c (joined_user now c d) (users s)\<rparr>"]
      by (simp add: join_accepted_state has_def)
    have k: "getMessageHistory (fst (step parse later (purge_timeout rm) ?s')) rm
               = getMessageHistory ?s' rm"
      using purge_keeps[OF h] by (simp add: getMessageHistory_def)
    have g: "getMessageHistory (room_add rm c (ensure_room rm
               (s\<lparr>users := AList.update c (joined_user now c d) (users s)\<rparr>))) rm
             = getMessageHistory s rm"
      by (simp add: getMessageHistory_def)
    have e: "getMessageHistory ?s' rm
        = (if length (getMessageHistory s rm) < 50
           then getMessageHistory s rm
                @ [SystemMessage (system_id now)
                     (username (joined_user now c d) @ '' joined the room'') rm now]
           else tl (getMessageHistory s rm
                @ [SystemMessage (system_id now)
                     (username (joined_user now c d) @ '' joined the room'') rm now]))"
      using acc rm
      by (auto simp add: join_accepted_state getMessageHistory_add_same g MAX_MESSAGE_HISTORY_def)
    show ?thesis using h k e by blast
  qed
  show ?thesis using a b c c' d by blast
qed

theorem purge_rechecks_room_witness:
  "\<not> has (rooms lobby_emptied) ''lobby'' \<and> ''lobby'' \<in> set (timers lobby_emptied) \<and>
   getMessageHistory lobby_emptied ''lobby'' = lobby_history \<and>
   getMessageHistory (purge_callback ''lobby'' lobby_emptied) ''lobby'' = [] \<and>
   join_accepted lobby_emptied ''c2'' (Some bob_lobby) \<and> requested_room bob_lobby = ''lobby'' \<and>
   has (rooms (fst (step no_parse 4 (join ''c2'' (Some bob_lobby)) lobby_emptied))) ''lobby'' \<and>
   purge_callback ''lobby'' (fst (step no_parse 4 (join ''c2'' (Some bob_lobby)) lobby_emptied))
     = fst (step no_parse 4 (join ''c2'' (Some bob_lobby)) lobby_emptied) \<and>
   getMessageHistory
     (fst (step no_parse 300003 (purge_timeout ''lobby'')
        (fst (step no_parse 4 (join ''c2'' (Some bob_lobby)) lobby_emptied)))) ''lobby''
     = lobby_history @ [SystemMessage (system_id 4) ''bob joined the room'' ''lobby'' 4]"
proof -
  let ?s' = "fst (step no_parse 4 (join ''c2'' (Some bob_lobby)) lobby_emptied)"
  have a: "\<not> has (rooms lobby_emptied) ''lobby''" by (simp add: lobby_emptied_fields has_def)
  have t: "''lobby'' \<in> set (timers lobby_emptied)" by (simp add: lobby_emptied_fields)
  have g: "getMessageHistory lobby_emptied ''lobby'' = lobby_history"
    by (simp add: getMessageHistory_def lobby_emptied_fields)
  have l: "length lobby_history < 50" by (simp add: lobby_history_def)
  have p: "getMessageHistory (purge_callback ''lobby'' lobby_emptied) ''lobby'' = []"
    using a purge_rechecks_room[of lobby_emptied "''lobby''"]
    by (simp add: getMessageHistory_def lobby_emptied_fields)
  have j: "join_accepted lobby_emptied ''c2'' (Some bob_lobby)"
    by (simp add: join_accepted_def lobby_emptied_fields bob_lobby_def requested_room_def
        isValidUsername_def isValidRoomName_def name_char_def findByUsername_def
        MAX_USERNAME_LENGTH_def MAX_ROOM_NAME_LENGTH_def)
  have rq: "requested_room bob_lobby = ''lobby''"
    by (simp add: bob_lobby_def requested_room_def)
  have nm: "username (joined_user 4 ''c2'' bob_lobby) = ''bob''"
    by (simp add: joined_user_def bob_lobby_def)
  note inst = purge_rechecks_room[of ?s' "''lobby''"]
    purge_rechecks_room[of lobby_emptied "''lobby''" no_parse 4 "''c2''" bob_lobby 300003]
  have h: "has (rooms ?s') ''lobby''" using j rq inst(2) by blast
  have k: "purge_callback ''lobby'' ?s' = ?s'" using h inst(1) by blast
  have e: "getMessageHistory (fst (step no_parse 300003 (purge_timeout ''lobby'') ?s')) ''lobby''
     = lobby_history @ [SystemMessage (system_id 4) ''bob joined the room'' ''lobby'' 4]"
    using j rq inst(2) g l nm by simp
  from a t g p j rq h k e show ?thesis
    by (intro conjI) (erule conjE | assumption)+
qed

text \<open>
  C6 as stated fails: no callback is ever cancelled. The room empties at time 3, is rejoined
  at 4, within the window of the first callback, and empties again at 5. When the first
  callback fires at 300003 the room is absent, so the whole history goes, the part from
  before the rejoin included, while the second callback is still pending.
\<close>

theorem stale_purge_after_rejoin:
  "reachable no_parse lobby_emptied \<and>
   getMessageHistory lobby_emptied ''lobby'' = lobby_history \<and>
   timers lobby_emptied = [''lobby''] \<and>
   has (rooms (run no_parse [(4, connection ''c2''), (4, join ''c2'' (Some bob_lobby))]
                 lobby_emptied)) ''lobby'' \<and>
   reachable no_parse lobby_emptied_again \<and>
   getMessageHistory lobby_emptied_again ''lobby'' =
     lobby_history @
       [SystemMessage (system_id 4) ''bob joined the room'' ''lobby'' 4,
        SystemMessage (system_id 5) ''bob left the room'' ''lobby'' 5] \<and>
   timers lobby_emptied_again = [''lobby'', ''lobby''] \<and>
   getMessageHistory
     (fst (step no_parse 300003 (purge_timeout ''lobby'') lobby_emptied_again)) ''lobby'' = [] \<and>
   timers (fst (step no_parse 300003 (purge_timeout ''lobby'') lobby_emptied_again))
     = [''lobby'']"
proof -
  have r1: "reachable no_parse lobby_emptied"
    unfolding lobby_emptied_def by (rule reachable_run[OF reachable_initial])
  have r2: "reachable no_parse lobby_emptied_again"
    unfolding lobby_emptied_again_def by (rule reachable_run[OF r1])
  have g1: "getMessageHistory lobby_emptied ''lobby'' = lobby_history"
    by (simp add: getMessageHistory_def lobby_emptied_fields)
  have t1: "timers lobby_emptied = [''lobby'']" by (simp add: lobby_emptied_fields)
  have h: "has (rooms (run no_parse [(4, connection ''c2''), (4, join ''c2'' (Some bob_lobby))]
                 lobby_emptied)) ''lobby''"
    by (simp add: lobby_emptied_def lobby_history_def bob_lobby_def
      hi_def alice_def no_parse_def handler_defs helper_defs)
  have g2: "getMessageHistory lobby_emptied_again ''lobby'' =
     lobby_history @
       [SystemMessage (system_id 4) ''bob joined the room'' ''lobby'' 4,
        SystemMessage (system_id 5) ''bob left the room'' ''lobby'' 5]"
    by (simp add: getMessageHistory_def lobby_emptied_again_fields)
  have t2: "timers lobby_emptied_again = [''lobby'', ''lobby'']"
    by (simp add: lobby_emptied_again_fields)
  have p: "getMessageHistory
     (fst (step no_parse 300003 (purge_timeout ''lobby'') lobby_emptied_again)) ''lobby'' = []"
    by (simp add: getMessageHistory_def purge_callback_def has_def lobby_emptied_again_fields)
  have t3: "timers (fst (step no_parse 300003 (purge_timeout ''lobby'') lobby_emptied_again))
     = [''lobby'']"
    by (simp add: lobby_emptied_again_fields)
  from r1 g1 t1 h r2 g2 t2 p t3 show ?thesis
    by (intro conjI) (erule conjE | assumption)+
qed

text \<open>
  C7. On a regular connection without a user record, \<^verbatim>\<open>send_message\<close> answers with the single
  error event ``User not authenticated'', sent to that connection, and the state is the
  one before: nothing is broadcast and no registry or history changes. (The regular-client
  handlers return at once on a connection classified as bridge.)
\<close>

theorem send_message_before_join:
  assumes "map_of (users s) c = None" and "\<not> isLaravelClient s c"
  shows "step parse now (send_message c messageData) s =
           (s, [error_to c ''User not authenticated''])"
  using assms by (simp add: send_message_handler_def)

theorem send_message_before_join_witness:
  "map_of (users initial) ''c1'' = None \<and> \<not> isLaravelClient initial ''c1'' \<and>
   step no_parse 5 (send_message ''c1'' hi) initial =
     (initial, [error_to ''c1'' ''User not authenticated''])"
proof -
  have a: "map_of (users initial) ''c1'' = None" by (simp add: initial_def)
  have b: "\<not> isLaravelClient initial ''c1''" by (simp add: initial_def)
  show ?thesis using a b send_message_before_join[OF a b] by blast
qed

text \<open>
  C8. On a regular connection, each validation failure of \<^verbatim>\<open>join\<close>, \<^verbatim>\<open>send_message\<close>,
  \<^verbatim>\<open>send_private_message\<close> and \<^verbatim>\<open>change_room\<close> (a malformed username, a malformed room
  name, a username already taken, a content that is empty once sanitized, a target user
  that is not connected) returns the state unchanged, so \<^verbatim>\<open>users\<close>, \<^verbatim>\<open>rooms\<close> and every history
  are as before, and emits exactly one event: the error sent to the caller.
\<close>

theorem validation_failure_changes_nothing:
  assumes "\<not> isLaravelClient s c"
  shows
   "(\<not> isValidUsername (jd_username d) \<longrightarrow>
       step parse now (join c (Some d)) s = (s, [error_to c invalid_username_msg])) \<and>
    (isValidUsername (jd_username d) \<and> \<not> isValidRoomName (requested_room d) \<longrightarrow>
       step parse now (join c (Some d)) s = (s, [error_to c invalid_room_msg])) \<and>
    (isValidUsername (jd_username d) \<and> isValidRoomName (requested_room d) \<and>
     jd_username d = Some name \<and> findByUsername s name \<noteq> None \<longrightarrow>
       step parse now (join c (Some d)) s = (s, [error_to c username_taken_msg])) \<and>
    (has (users s) c \<and> get_prop md ''content'' = Returns (JStr str) \<and>
     take MAX_MESSAGE_LENGTH (trim str) = [] \<longrightarrow>
       step parse now (send_message c md) s = (s, [error_to c ''Message cannot be empty''])) \<and>
    (has (users s) c \<and> get_prop md ''targetUsername'' = Returns target \<and>
     get_prop md ''content'' = Returns (JStr str) \<and>
     take MAX_MESSAGE_LENGTH (trim str) = [] \<longrightarrow>
       step parse now (send_private_message c md) s =
         (s, [error_to c ''Private message cannot be empty''])) \<and>
    (has (users s) c \<and> get_prop md ''targetUsername'' = Returns (JStr t) \<and>
     get_prop md ''content'' = Returns (JStr str) \<and>
     take MAX_MESSAGE_LENGTH (trim str) \<noteq> [] \<and> findByUsername s t = None \<longrightarrow>
       step parse now (send_private_message c md) s =
         (s, [error_to c ''User not found or offline''])) \<and>
    (has (users s) c \<and> \<not> isValidRoomName newRoom \<longrightarrow>
       step parse now (change_room c newRoom) s = (s, [error_to c invalid_room_msg]))"
proof -
  have j1: "\<not> isValidUsername (jd_username d) \<longrightarrow>
       step parse now (join c (Some d)) s = (s, [error_to c invalid_username_msg])"
    using assms by (simp add: join_handler_def Let_def)
  have j2: "isValidUsername (jd_username d) \<and> \<not> isValidRoomName (requested_room d) \<longrightarrow>
       step parse now (join c (Some d)) s = (s, [error_to c invalid_room_msg])"
    using assms by (simp add: join_handler_def Let_def)
  have j3: "isValidUsername (jd_username d) \<and> isValidRoomName (requested_room d) \<and>
     jd_username d = Some name \<and> findByUsername s name \<noteq> None \<longrightarrow>
       step parse now (join c (Some d)) s = (s, [error_to c username_taken_msg])"
    using assms by (auto simp add: join_handler_def Let_def)
  have m: "has (users s) c \<and> get_prop md ''content'' = Returns (JStr str) \<and>
     take MAX_MESSAGE_LENGTH (trim str) = [] \<longrightarrow>
       step parse now (send_message c md) s = (s, [error_to c ''Message cannot be empty''])"
    using assms by (auto simp add: send_message_handler_def has_def)
  have p1: "has (users s) c \<and> get_prop md ''targetUsername'' = Returns target \<and>
     get_prop md ''content'' = Returns (JStr str) \<and>
     take MAX_MESSAGE_LENGTH (trim str) = [] \<longrightarrow>
       step parse now (send_private_message c md) s =
         (s, [error_to c ''Private message cannot be empty''])"
    using assms by (auto simp add: send_private_message_handler_def has_def)
  have p2: "has (users s) c \<and> get_prop md ''targetUsername'' = Returns (JStr t) \<and>
     get_prop md ''content'' = Returns (JStr str) \<and>
     take MAX_MESSAGE_LENGTH (trim str) \<noteq> [] \<and> findByUsername s t = None \<longrightarrow>
       step parse now (send_private_message c md) s =
         (s, [error_to c ''User not found or offline''])"
    using assms by (auto simp add: send_private_message_handler_def has_def)
  have r: "has (users s) c \<and> \<not> isValidRoomName newRoom \<longrightarrow>
       step parse now (change_room c newRoom) s = (s, [error_to c invalid_room_msg])"
    using assms by (auto simp add: change_room_handler_def has_def)
  show ?thesis using j1 j2 j3 m p1 p2 r by blast
qed

theorem validation_failure_changes_nothing_witness:
  "\<not> isLaravelClient alice_joined ''c1'' \<and> \<not> isLaravelClient alice_joined ''c2'' \<and>
   \<not> isValidUsername (jd_username spaced) \<and>
   step no_parse 2 (join ''c2'' (Some spaced)) alice_joined =
     (alice_joined, [error_to ''c2'' invalid_username_msg]) \<and>
   isValidUsername (jd_username bad_room) \<and> \<not> isValidRoomName (requested_room bad_room) \<and>
   step no_parse 2 (join ''c2'' (Some bad_room)) alice_joined =
     (alice_joined, [error_to ''c2'' invalid_room_msg]) \<and>
   isValidUsername (jd_username alice) \<and> isValidRoomName (requested_room alice) \<and>
   jd_username alice = Some ''alice'' \<and> findByUsername alice_joined ''alice'' \<noteq> None \<and>
   step no_parse 2 (join ''c2'' (Some alice)) alice_joined =
     (alice_joined, [error_to ''c2'' username_taken_msg]) \<and>
   has (users alice_joined) ''c1'' \<and>
   get_prop blank ''targetUsername'' = Returns (JStr ''alice'') \<and>
   get_prop blank ''content'' = Returns (JStr ''   '') \<and>
   take MAX_MESSAGE_LENGTH (trim ''   '') = [] \<and>
   step no_parse 2 (send_message ''c1'' blank) alice_joined =
     (alice_joined, [error_to ''c1'' ''Message cannot be empty'']) \<and>
   step no_parse 2 (send_private_message ''c1'' blank) alice_joined =
     (alice_joined, [error_to ''c1'' ''Private message cannot be empty'']) \<and>
   get_prop to_nobody ''targetUsername'' = Returns (JStr ''zed'') \<and>
   get_prop to_nobody ''content'' = Returns (JStr ''psst'') \<and>
   take MAX_MESSAGE_LENGTH (trim ''psst'') \<noteq> [] \<and> findByUsername alice_joined ''zed'' = None \<and>
   step no_parse 2 (send_private_message ''c1'' to_nobody) alice_joined =
     (alice_joined, [error_to ''c1'' ''User not found or offline'']) \<and>
   \<not> isValidRoomName ''no room'' \<and>
   step no_parse 2 (change_room ''c1'' ''no room'') alice_joined =
     (alice_joined, [error_to ''c1'' invalid_room_msg])"
proof -
  have f1: "\<not> isLaravelClient alice_joined ''c1''" by (simp add: alice_joined_flag)
  have f2: "\<not> isLaravelClient alice_joined ''c2''" by (simp add: alice_joined_flag)
  have v1: "\<not> isValidUsername (jd_username spaced)"
    by (simp add: spaced_def isValidUsername_def name_char_def)
  have v2: "isValidUsername (jd_username bad_room) \<and> \<not> isValidRoomName (requested_room bad_room)"
    by (simp add: bad_room_def requested_room_def isValidUsername_def isValidRoomName_def
        name_char_def MAX_USERNAME_LENGTH_def)
  have v3: "isValidUsername (jd_username alice) \<and> isValidRoomName (requested_room alice) \<and>
      jd_username alice = Some ''alice'' \<and> findByUsername alice_joined ''alice'' \<noteq> None"
    by (simp add: alice_def alice_user_def requested_room_def isValidUsername_def
        isValidRoomName_def name_char_def MAX_USERNAME_LENGTH_def MAX_ROOM_NAME_LENGTH_def
        findByUsername_def alice_joined_users)
  have h: "has (users alice_joined) ''c1''" by (simp add: has_def alice_joined_users)
  have b: "get_prop blank ''targetUsername'' = Returns (JStr ''alice'') \<and>
      get_prop blank ''content'' = Returns (JStr ''   '') \<and>
      take MAX_MESSAGE_LENGTH (trim ''   '') = []"
    by (simp add: blank_def trim_def is_space_def)
  have n: "get_prop to_nobody ''targetUsername'' = Returns (JStr ''zed'') \<and>
      get_prop to_nobody ''content'' = Returns (JStr ''psst'') \<and>
      take MAX_MESSAGE_LENGTH (trim ''psst'') \<noteq> [] \<and> findByUsername alice_joined ''zed'' = None"
    by (simp add: to_nobody_def trim_def is_space_def MAX_MESSAGE_LENGTH_def findByUsername_def
        alice_joined_users alice_user_def toLowerCase_def toLowerChar_def)
  have r: "\<not> isValidRoomName ''no room''"
    by (simp add: isValidRoomName_def name_char_def)
  have s1: "step no_parse 2 (join ''c2'' (Some spaced)) alice_joined =
      (alice_joined, [error_to ''c2'' invalid_username_msg])"
    using v1 validation_failure_changes_nothing
        [OF f2, where d = spaced and parse = no_parse and now = 2]
    by blast
  have s2: "step no_parse 2 (join ''c2'' (Some bad_room)) alice_joined =
      (alice_joined, [error_to ''c2'' invalid_room_msg])"
    using v2 validation_failure_changes_nothing
        [OF f2, where d = bad_room and parse = no_parse and now = 2]
    by blast
  have s3: "step no_parse 2 (join ''c2'' (Some alice)) alice_joined =
      (alice_joined, [error_to ''c2'' username_taken_msg])"
    using v3 validation_failure_changes_nothing
        [OF f2, where d = alice and name = "''alice''" and parse = no_parse and now = 2]
    by blast
  have s4: "step no_parse 2 (send_message ''c1'' blank) alice_joined =
      (alice_joined, [error_to ''c1'' ''Message cannot be empty''])"
    using h b validation_failure_changes_nothing
        [OF f1, where md = blank and str = "''   ''" and parse = no_parse and now = 2]
    by blast
  have s5: "step no_parse 2 (send_private_message ''c1'' blank) alice_joined =
      (alice_joined, [error_to ''c1'' ''Private message cannot be empty''])"
    using h b validation_failure_changes_nothing
        [OF f1, where md = blank and str = "''   ''" and target = "JStr ''alice''"
           and parse = no_parse and now = 2]
    by blast
  have s6: "step no_parse 2 (send_private_message ''c1'' to_nobody) alice_joined =
      (alice_joined, [error_to ''c1'' ''User not found or offline''])"
    using h n validation_failure_changes_nothing
        [OF f1, where md = to_nobody and str = "''psst''" and t = "''zed''"
           and parse = no_parse and now = 2]
    by blast
  have s7: "step no_parse 2 (change_room ''c1'' ''no room'') alice_joined =
      (alice_joined, [error_to ''c1'' invalid_room_msg])"
    using h r validation_failure_changes_nothing
        [OF f1, where newRoom = "''no room''" and parse = no_parse and now = 2]
    by blast
  from f1 f2 v1 v2 v3 h b n r s1 s2 s3 s4 s5 s6 s7 show ?thesis
    by (intro conjI) (erule conjE | assumption)+
qed

text \<open>
  C9. A bridge line that parses to \<^verbatim>\<open>emit_to_room\<close> for a room leaves that room with an
  entry (its members as before), and emits the event with its data to the room. If the
  event is \<^verbatim>\<open>receive_message\<close>, the data is appended to the room's history, which grows by
  this one entry, or at 50 entries drops its oldest for it, and no other history changes;
  for any other event the histories are unchanged.
\<close>

theorem bridge_emit_to_room:
  assumes "parse line = Some (M_emit_to_room rm ev data)"
  shows "has (rooms (fst (processLaravelMessage parse now c line s))) rm \<and>
         members (fst (processLaravelMessage parse now c line s)) rm = members s rm \<and>
         snd (processLaravelMessage parse now c line s) = [Emit (to_room rm) ev (P_json data)] \<and>
         (ev = ''receive_message'' \<longrightarrow>
            getMessageHistory (fst (processLaravelMessage parse now c line s)) rm =
              (if length (getMessageHistory s rm) < 50
               then getMessageHistory s rm @ [BridgeData data]
               else tl (getMessageHistory s rm @ [BridgeData data])) \<and>
            (\<forall>rm'. rm' \<noteq> rm \<longrightarrow>
               getMessageHistory (fst (processLaravelMessage parse now c line s)) rm' =
                 getMessageHistory s rm')) \<and>
         (ev \<noteq> ''receive_message'' \<longrightarrow>
            messageHistory (fst (processLaravelMessage parse now c line s)) = messageHistory s)"
proof -
  let ?s' = "fst (processLaravelMessage parse now c line s)"
  have st: "?s' = (if ev = ''receive_message''
                   then addToMessageHistory rm (BridgeData data) (ensure_room rm s)
                   else ensure_room rm s)"
    using assms by (simp add: processLaravelMessage_def handleLaravelRoomEmit_def Let_def)
  have out: "snd (processLaravelMessage parse now c line s) = [Emit (to_room rm) ev (P_json data)]"
    using assms by (simp add: processLaravelMessage_def handleLaravelRoomEmit_def Let_def)
  have gh: "getMessageHistory (ensure_room rm s) r = getMessageHistory s r" for r
    by (simp add: getMessageHistory_def)
  have a: "has (rooms ?s') rm" by (simp add: st has_ensure_room)
  have b: "members ?s' rm = members s rm"
    by (auto simp add: st members_def map_of_rooms_ensure has_def split: option.splits)
  have c: "ev = ''receive_message'' \<longrightarrow>
            getMessageHistory ?s' rm =
              (if length (getMessageHistory s rm) < 50
               then getMessageHistory s rm @ [BridgeData data]
               else tl (getMessageHistory s rm @ [BridgeData data]))"
    by (auto simp add: st getMessageHistory_add_same gh MAX_MESSAGE_HISTORY_def)
  have d: "ev = ''receive_message'' \<longrightarrow>
            (\<forall>rm'. rm' \<noteq> rm \<longrightarrow> getMessageHistory ?s' rm' = getMessageHistory s rm')"
    by (simp add: st getMessageHistory_add_other gh)
  have e: "ev \<noteq> ''receive_message'' \<longrightarrow> messageHistory ?s' = messageHistory s"
    by (simp add: st)
  show ?thesis using a b out c d e by blast
qed

theorem bridge_emit_to_room_witness:
  "bridge_parse ''E'' = Some (M_emit_to_room ''r1'' ''receive_message'' (JStr ''hi'')) \<and>
   has (rooms (fst (processLaravelMessage bridge_parse 2 ''b1'' ''E'' alice_joined))) ''r1'' \<and>
   snd (processLaravelMessage bridge_parse 2 ''b1'' ''E'' alice_joined) =
     [Emit (to_room ''r1'') ''receive_message'' (P_json (JStr ''hi''))] \<and>
   getMessageHistory alice_joined ''r1'' = [] \<and>
   getMessageHistory (fst (processLaravelMessage bridge_parse 2 ''b1'' ''E'' alice_joined)) ''r1''
     = [BridgeData (JStr ''hi'')] \<and>
   getMessageHistory (fst (processLaravelMessage bridge_parse 2 ''b1'' ''E'' alice_joined))
     ''lobby'' = getMessageHistory alice_joined ''lobby''"
proof -
  have p: "bridge_parse ''E'' = Some (M_emit_to_room ''r1'' ''receive_message'' (JStr ''hi''))"
    by (simp add: bridge_parse_def)
  have h: "getMessageHistory alice_joined ''r1'' = []"
    by (simp add: alice_joined_def alice_def no_parse_def handler_defs helper_defs)
  have ne: "''lobby'' \<noteq> ''r1''" by simp
  show ?thesis
    using p h ne
      bridge_emit_to_room[where parse = bridge_parse and line = "''E''" and now = 2
        and c = "''b1''" and s = alice_joined, OF p]
    by simp
qed

text \<open>
  C10. On a regular connection that has joined, a \<^verbatim>\<open>send_message\<close> whose payload has no
  string under \<^verbatim>\<open>content\<close> (the payload itself may be \<^verbatim>\<open>undefined\<close>) makes \<^verbatim>\<open>sanitizeInput\<close>
  throw; the handler returns all the same, with the state unchanged and the single error
  event ``Failed to send message'' sent to the sender.
\<close>

theorem send_message_non_string_content:
  assumes "map_of (users s) c = Some u" and "\<not> isLaravelClient s c"
    and "\<forall>v. get_prop messageData ''content'' = Returns v \<longrightarrow> \<not> is_string v"
  shows "(\<forall>v. get_prop messageData ''content'' = Returns v \<longrightarrow> sanitizeInput v = Throws) \<and>
         step parse now (send_message c messageData) s =
           (s, [error_to c ''Failed to send message''])"
  using assms
  by (auto simp add: send_message_handler_def sanitizeInput_throws split: outcome.splits)

theorem send_message_non_string_content_witness:
  "map_of (users alice_joined) ''c1'' = Some alice_user \<and> \<not> isLaravelClient alice_joined ''c1'' \<and>
   get_prop (JObj [(''text'', JStr ''hi'')]) ''content'' = Returns JUndefined \<and>
   \<not> is_string JUndefined \<and> sanitizeInput JUndefined = Throws \<and>
   step no_parse 2 (send_message ''c1'' (JObj [(''text'', JStr ''hi'')])) alice_joined =
     (alice_joined, [error_to ''c1'' ''Failed to send message''])"
proof -
  have a: "map_of (users alice_joined) ''c1'' = Some alice_user"
    by (simp add: alice_joined_users)
  have b: "\<not> isLaravelClient alice_joined ''c1''" by (rule alice_joined_flag_c1)
  have g: "get_prop (JObj [(''text'', JStr ''hi'')]) ''content'' = Returns JUndefined"
    by simp
  then have c: "\<forall>v. get_prop (JObj [(''text'', JStr ''hi'')]) ''content'' = Returns v
                   \<longrightarrow> \<not> is_string v"
    by simp
  show ?thesis
    using a b g send_message_non_string_content[OF a b c, of no_parse 2] by simp
qed

end
